theory Spec2Isabelle
  imports Main
begin

section \<open>Data model of \<open>src/src/App.tsx\<close>\<close>

text \<open>
  The game controller is the React component \<open>App\<close>: sixteen state hooks and the
  handlers that update them. The record \<open>App\<close> below has one field per hook, and one
  more for the callbacks handed to \<open>setTimeout\<close> that have not run yet. JavaScript
  numbers are modelled as \<open>int\<close>: every number the game handles is an integer drawn
  from a wheel or a board layout, far inside the exactly represented range. \<open>null\<close> is
  \<open>None\<close>.
\<close>

datatype Player = player1 | player2

text \<open>The operations \<open>"+"\<close>, \<open>"-"\<close>, \<open>"\<times>"\<close> and \<open>"\<div>"\<close> of type \<open>Operation\<close>.\<close>

datatype Operation = Add | Subtract | Multiply | Divide

datatype WinCondition = first_to_5 | connect_3 | most_on_full

datatype GameState =
    SETUP
  | COIN_FLIP
  | PLAYER_1_SPIN_1
  | PLAYER_1_SPIN_2
  | PLAYER_1_ANSWER
  | PLAYER_2_SPIN_1
  | PLAYER_2_SPIN_2
  | PLAYER_2_ANSWER
  | GAME_OVER

text \<open>\<open>Segment = { v: number; c: string }\<close>: a wheel face and its colour.\<close>

record Segment =
  seg_v :: int
  seg_c :: string

record PlayerSettings =
  ps_name :: string
  ps_value :: string
  ps_light :: string

record GameSettings =
  settings_player1 :: PlayerSettings
  settings_player2 :: PlayerSettings
  winCondition :: WinCondition
  operation :: Operation

text \<open>The two faces of the coin, \<open>"cara"\<close> and \<open>"coroa"\<close>.\<close>

datatype Coin = cara | coroa

text \<open>
  The message shown to the players is a template string in the source; the model keeps
  which template was used and the values spliced into it.
\<close>

datatype Message =
    MsgConfigure
  | MsgCoinToss
  | MsgCoinResult string string
  | MsgTurn string
  | MsgGameOver
  | MsgSpinning
  | MsgClickRight
  | MsgQuestion "int option" Operation int
  | MsgCorrect int Operation int int
  | MsgIncorrect int
  | MsgNoInteger int Operation int

text \<open>
  A callback handed to \<open>setTimeout\<close> and not yet run, with the values its closure
  captured when the handler that scheduled it ran: \<open>ChangeTurn\<close> is \<open>changeTurn\<close> of
  the render in which the cell was clicked (it reads that render's \<open>currentPlayer\<close> and
  \<open>gameSettings\<close>), \<open>StartFirstTurn\<close> is the callback of \<open>handleCoinFlipComplete\<close>,
  \<open>ClearFlash\<close> is \<open>() => setFlashingCell(null)\<close>.
\<close>

datatype Timeout =
    StartFirstTurn Player string
  | ClearFlash
  | ChangeTurn Player GameSettings

datatype error = TypeError | OutsideLayout

record App =
  gameState :: GameState
  currentPlayer :: Player
  gameSettings :: GameSettings
  message :: Message
  isSpinning1 :: bool
  isSpinning2 :: bool
  spinner1Value :: "int option"
  spinner2Value :: "int option"
  winner :: "Player option"
  spinner1Target :: "int option"
  spinner2Target :: "int option"
  boardLayout :: "int list list"
  spinner1Segments :: "Segment list"
  divisionTableNumber :: "int option"
  boardState :: "Player option list list"
  flashingCell :: "(nat \<times> nat) option"
  timeouts :: "Timeout list"

section \<open>Constants\<close>

fun PREDEFINED_BOARDS :: "Operation \<Rightarrow> int list list" where
  "PREDEFINED_BOARDS Multiply =
    [[30, 18, 63, 64, 28, 7, 8],
     [32, 45, 60, 70, 27, 6, 9],
     [35, 48, 56, 72, 25, 5, 10],
     [36, 1, 54, 80, 24, 4, 12],
     [40, 16, 50, 81, 21, 3, 14],
     [42, 100, 49, 90, 20, 2, 15]]"
| "PREDEFINED_BOARDS Add =
    [[14, 8, 21, 12, 17, 9, 23],
     [6, 25, 11, 18, 7, 15, 20],
     [24, 10, 19, 5, 22, 13, 16],
     [1, 2, 3, 4, 26, 27, 28],
     [29, 30, 31, 32, 33, 34, 35],
     [36, 37, 38, 39, 40, 41, 42]]"
| "PREDEFINED_BOARDS Subtract =
    [[2, 5, 3, 7, 1, 6, 20],
     [8, 4, 9, 0, 10, 15, 13],
     [12, 17, 16, 14, 19, 11, 18],
     [21, 22, 23, 24, 25, 26, 27],
     [28, 29, 30, 31, 32, 33, 34],
     [35, 36, 37, 38, 39, 40, 41]]"
| "PREDEFINED_BOARDS Divide =
    [[9, 2, 8, 6, 10, 14, 18],
     [4, 5, 7, 3, 1, 17, 11],
     [21, 20, 19, 12, 16, 15, 13],
     [22, 23, 24, 25, 26, 27, 28],
     [29, 30, 32, 35, 36, 40, 42],
     [45, 48, 50, 54, 56, 60, 81]]"

definition DEFAULT_SPINNER_SEGMENTS :: "Segment list" where
  "DEFAULT_SPINNER_SEGMENTS =
    [\<lparr>seg_v = 1, seg_c = ''#8A2BE2''\<rparr>,
     \<lparr>seg_v = 2, seg_c = ''#DC143C''\<rparr>,
     \<lparr>seg_v = 3, seg_c = ''#FF4500''\<rparr>,
     \<lparr>seg_v = 4, seg_c = ''#483D8B''\<rparr>,
     \<lparr>seg_v = 5, seg_c = ''#FF69B4''\<rparr>,
     \<lparr>seg_v = 6, seg_c = ''#FFD700''\<rparr>,
     \<lparr>seg_v = 7, seg_c = ''#3CB371''\<rparr>,
     \<lparr>seg_v = 8, seg_c = ''#00CED1''\<rparr>,
     \<lparr>seg_v = 9, seg_c = ''#008B8B''\<rparr>,
     \<lparr>seg_v = 10, seg_c = ''#D2B48C''\<rparr>]"

text \<open>The default names are \<open>"Azul (Padr\<dots>o)"\<close> and \<open>"Rosa (Padr\<dots>o)"\<close>, the a with tilde
  written as its two UTF-8 bytes.\<close>

definition DEFAULT_GAME_SETTINGS :: GameSettings where
  "DEFAULT_GAME_SETTINGS =
    \<lparr>settings_player1 =
       \<lparr>ps_name = ''Azul (Padr'' @ [char_of (195::nat), char_of (163::nat)] @ ''o)'',
        ps_value = ''#4682B4'', ps_light = ''#00BFFF''\<rparr>,
     settings_player2 =
       \<lparr>ps_name = ''Rosa (Padr'' @ [char_of (195::nat), char_of (163::nat)] @ ''o)'',
        ps_value = ''#DB7093'', ps_light = ''#FF1493''\<rparr>,
     winCondition = first_to_5,
     operation = Multiply\<rparr>"

text \<open>\<open>Array(6).fill(null).map(() => Array(7).fill(null))\<close>.\<close>

definition initialBoardState :: "Player option list list" where
  "initialBoardState = replicate 6 (replicate 7 None)"

section \<open>Small helpers the handlers write inline\<close>

text \<open>\<open>gameSettings[player]\<close>.\<close>

fun playerSettings :: "GameSettings \<Rightarrow> Player \<Rightarrow> PlayerSettings" where
  "playerSettings st player1 = settings_player1 st"
| "playerSettings st player2 = settings_player2 st"

text \<open>\<open>name.split(" ")[0]\<close>: the text before the first space.\<close>

definition firstName :: "string \<Rightarrow> string" where
  "firstName n = takeWhile (\<lambda>ch. ch \<noteq> CHR '' '') n"

text \<open>\<open>`PLAYER_${p === "player1" ? 1 : 2}_SPIN_1`\<close> and its two siblings.\<close>

fun SPIN_1_of :: "Player \<Rightarrow> GameState" where
  "SPIN_1_of player1 = PLAYER_1_SPIN_1"
| "SPIN_1_of player2 = PLAYER_2_SPIN_1"

fun SPIN_2_of :: "Player \<Rightarrow> GameState" where
  "SPIN_2_of player1 = PLAYER_1_SPIN_2"
| "SPIN_2_of player2 = PLAYER_2_SPIN_2"

fun ANSWER_of :: "Player \<Rightarrow> GameState" where
  "ANSWER_of player1 = PLAYER_1_ANSWER"
| "ANSWER_of player2 = PLAYER_2_ANSWER"

text \<open>\<open>gameState.endsWith("ANSWER")\<close>, and the same for the two spin suffixes.\<close>

fun endsWith_ANSWER :: "GameState \<Rightarrow> bool" where
  "endsWith_ANSWER PLAYER_1_ANSWER = True"
| "endsWith_ANSWER PLAYER_2_ANSWER = True"
| "endsWith_ANSWER _ = False"

fun endsWith_SPIN_1 :: "GameState \<Rightarrow> bool" where
  "endsWith_SPIN_1 PLAYER_1_SPIN_1 = True"
| "endsWith_SPIN_1 PLAYER_2_SPIN_1 = True"
| "endsWith_SPIN_1 _ = False"

fun endsWith_SPIN_2 :: "GameState \<Rightarrow> bool" where
  "endsWith_SPIN_2 PLAYER_1_SPIN_2 = True"
| "endsWith_SPIN_2 PLAYER_2_SPIN_2 = True"
| "endsWith_SPIN_2 _ = False"

text \<open>\<open>gameState.startsWith(`PLAYER_${p === "player1" ? 1 : 2}`)\<close>.\<close>

fun startsWith_PLAYER :: "Player \<Rightarrow> GameState \<Rightarrow> bool" where
  "startsWith_PLAYER player1 PLAYER_1_SPIN_1 = True"
| "startsWith_PLAYER player1 PLAYER_1_SPIN_2 = True"
| "startsWith_PLAYER player1 PLAYER_1_ANSWER = True"
| "startsWith_PLAYER player2 PLAYER_2_SPIN_1 = True"
| "startsWith_PLAYER player2 PLAYER_2_SPIN_2 = True"
| "startsWith_PLAYER player2 PLAYER_2_ANSWER = True"
| "startsWith_PLAYER _ _ = False"

text \<open>
  The remainder operator \<open>%\<close> of JavaScript on integers: the sign follows the dividend,
  and a zero divisor gives \<open>NaN\<close>, here \<open>None\<close>.
\<close>

definition js_rem :: "int \<Rightarrow> int \<Rightarrow> int option" where
  "js_rem a b = (if b = 0 then None else Some (sgn a * (\<bar>a\<bar> mod \<bar>b\<bar>)))"

section \<open>The operand generator and the expected result\<close>

text \<open>
  \<open>getCorrectAnswer\<close>. In the division case \<open>val1 % val2 === 0\<close> is false for the
  \<open>NaN\<close> of a zero divisor; when it is true the quotient \<open>val1 / val2\<close> is exact.
\<close>

fun getCorrectAnswer :: "Operation \<Rightarrow> int \<Rightarrow> int \<Rightarrow> int option" where
  "getCorrectAnswer Multiply val1 val2 = Some (val1 * val2)"
| "getCorrectAnswer Add val1 val2 = Some (val1 + val2)"
| "getCorrectAnswer Subtract val1 val2 = Some (val1 - val2)"
| "getCorrectAnswer Divide val1 val2 =
     (if js_rem val1 val2 = Some 0 then Some (val1 div val2) else None)"

text \<open>
  The segments \<open>prepareTurn\<close> builds for wheel 1 under division:
  \<open>Array.from({ length: 10 }, (_, i) => ({ v: tableNumber * (i + 1),
  c: DEFAULT_SPINNER_SEGMENTS[i % 10].c }))\<close>.
\<close>

definition newSegments :: "int \<Rightarrow> Segment list" where
  "newSegments tableNumber =
     map (\<lambda>i. \<lparr>seg_v = tableNumber * (int i + 1),
               seg_c = seg_c (DEFAULT_SPINNER_SEGMENTS ! (i mod 10))\<rparr>) [0..<10]"

text \<open>
  \<open>prepareTurn\<close>. The argument \<open>r\<close> is the value of
  \<open>Math.floor(Math.random() * 10)\<close>, a number from 0 to 9, when the branch draws one.
\<close>

definition prepareTurn :: "GameSettings \<Rightarrow> nat \<Rightarrow> App \<Rightarrow> App" where
  "prepareTurn settings r s =
     (if operation settings = Divide then
        (let tableNumber = int r + 1 in
         s\<lparr>divisionTableNumber := Some tableNumber,
           spinner1Segments := newSegments tableNumber\<rparr>)
      else s\<lparr>spinner1Segments := DEFAULT_SPINNER_SEGMENTS, divisionTableNumber := None\<rparr>)"

text \<open>
  The targets \<open>handleSpin1Start\<close> chooses for the two wheels, from the operation, the
  table number and the segments of wheel 1. \<open>r1\<close> and \<open>r2\<close> are the values of the calls
  \<open>Math.floor(Math.random() * 10)\<close> in the order the branch makes them. The test
  \<open>divisionTableNumber\<close> is JavaScript truthiness: neither \<open>null\<close> nor 0. Reading \<open>.v\<close>
  of a segment index outside the array throws a TypeError.
\<close>

definition chooseTargets ::
  "Operation \<Rightarrow> int option \<Rightarrow> Segment list \<Rightarrow> nat \<Rightarrow> nat \<Rightarrow> error + (int \<times> int)" where
  "chooseTargets opn table segs r1 r2 =
     (if opn = Divide \<and> table \<noteq> None \<and> table \<noteq> Some 0 then
        (let randomMultiplierIndex = r1 in
         if randomMultiplierIndex < length segs then
           (let dividend = seg_v (segs ! randomMultiplierIndex)
            in Inr (dividend, the table))
         else Inl TypeError)
      else
        (let num1 = int r1 + 1; num2 = int r2 + 1 in
         if opn = Subtract then Inr (max num1 num2, min num1 num2)
         else Inr (num1, num2)))"

text \<open>
  Every expected result a round can have under an operation: the table number drawn by
  \<open>prepareTurn\<close> (\<open>r0\<close>), then the targets drawn by \<open>handleSpin1Start\<close> (\<open>r1\<close>, \<open>r2\<close>),
  each draw ranging over 0 to 9, and \<open>getCorrectAnswer\<close> of the two targets.
\<close>

definition roundOperands :: "Operation \<Rightarrow> nat \<Rightarrow> nat \<Rightarrow> nat \<Rightarrow> error + (int \<times> int)" where
  "roundOperands opn r0 r1 r2 =
     (if opn = Divide then chooseTargets opn (Some (int r0 + 1)) (newSegments (int r0 + 1)) r1 r2
      else chooseTargets opn None DEFAULT_SPINNER_SEGMENTS r1 r2)"

definition roundResult :: "Operation \<Rightarrow> nat \<Rightarrow> nat \<Rightarrow> nat \<Rightarrow> int option" where
  "roundResult opn r0 r1 r2 =
     (case roundOperands opn r0 r1 r2 of
        Inl e \<Rightarrow> None
      | Inr (operand1, operand2) \<Rightarrow> getCorrectAnswer opn operand1 operand2)"

definition producible :: "Operation \<Rightarrow> int list" where
  "producible opn =
     concat (map (\<lambda>r0. concat (map (\<lambda>r1. concat (map (\<lambda>r2.
        (case roundResult opn r0 r1 r2 of None \<Rightarrow> [] | Some x \<Rightarrow> [x]))
        [0..<10])) [0..<10])) [0..<10])"

section \<open>The handlers of \<open>App\<close>\<close>

text \<open>
  Each handler takes the state of the render it runs in and returns the state after the
  batch of \<open>setState\<close> calls it makes. The sound effects (\<open>playCoinSound\<close> and its
  siblings) change no state and are left out.
\<close>

definition initialApp :: App where
  "initialApp =
     \<lparr>gameState = SETUP,
      currentPlayer = player1,
      gameSettings = DEFAULT_GAME_SETTINGS,
      message = MsgConfigure,
      isSpinning1 = False,
      isSpinning2 = False,
      spinner1Value = None,
      spinner2Value = None,
      winner = None,
      spinner1Target = None,
      spinner2Target = None,
      boardLayout = PREDEFINED_BOARDS Multiply,
      spinner1Segments = DEFAULT_SPINNER_SEGMENTS,
      divisionTableNumber = None,
      boardState = initialBoardState,
      flashingCell = None,
      timeouts = []\<rparr>"

definition handleGameStart :: "GameSettings \<Rightarrow> nat \<Rightarrow> App \<Rightarrow> App" where
  "handleGameStart settings r s =
     (prepareTurn settings r
        (s\<lparr>boardLayout := PREDEFINED_BOARDS (operation settings),
           gameSettings := settings\<rparr>))
     \<lparr>gameState := COIN_FLIP, message := MsgCoinToss\<rparr>"

definition handleRestart :: "App \<Rightarrow> App" where
  "handleRestart s =
     s\<lparr>gameState := SETUP,
       currentPlayer := player1,
       gameSettings := DEFAULT_GAME_SETTINGS,
       message := MsgConfigure,
       spinner1Value := None,
       spinner2Value := None,
       spinner1Target := None,
       spinner2Target := None,
       boardState := initialBoardState,
       spinner1Segments := DEFAULT_SPINNER_SEGMENTS,
       divisionTableNumber := None,
       isSpinning1 := False,
       isSpinning2 := False,
       winner := None\<rparr>"

text \<open>
  \<open>handleCoinFlipComplete\<close>: the first player is set and the turn prepared at once; the
  phase changes 1600 ms later, in a callback that captured \<open>startingPlayer\<close> and
  \<open>winnerName\<close>.
\<close>

definition handleCoinFlipComplete :: "Coin \<Rightarrow> nat \<Rightarrow> App \<Rightarrow> App" where
  "handleCoinFlipComplete result r s =
     (let startingPlayer = (if result = cara then player1 else player2);
          winnerName = firstName (ps_name (playerSettings (gameSettings s) startingPlayer))
      in (prepareTurn (gameSettings s) r (s\<lparr>currentPlayer := startingPlayer\<rparr>))
         \<lparr>message :=
            MsgCoinResult
              (if result = cara
               then firstName (ps_name (settings_player1 (gameSettings s)))
               else firstName (ps_name (settings_player2 (gameSettings s))))
              winnerName,
          timeouts := timeouts s @ [StartFirstTurn startingPlayer winnerName]\<rparr>)"

subsection \<open>\<open>checkWinCondition\<close>\<close>

text \<open>
  \<open>line[i]\<close> and \<open>currentBoard[r][c]\<close> compared with \<open>player\<close>: an index outside the
  array reads \<open>undefined\<close>, which like \<open>null\<close> is no player. The loops below only read
  rows inside the board.
\<close>

definition lineAt :: "Player option list \<Rightarrow> nat \<Rightarrow> Player option" where
  "lineAt line i = (if i < length line then line ! i else None)"

definition cellAt :: "Player option list list \<Rightarrow> nat \<Rightarrow> nat \<Rightarrow> Player option" where
  "cellAt board r k = (if r < length board then lineAt (board ! r) k else None)"

text \<open>
  The loop \<open>for (let i = lo; i < hi; i++) if (body(i)) return true;\<close> followed by
  falling through: the result says whether the loop returned.
\<close>

function for_returns :: "nat \<Rightarrow> nat \<Rightarrow> (nat \<Rightarrow> bool) \<Rightarrow> bool" where
  "for_returns i hi body =
     (if i < hi then (if body i then True else for_returns (Suc i) hi body) else False)"
  by pat_completeness auto
termination
  by (relation "measure (\<lambda>(i, hi, body). hi - i)") auto

text \<open>\<open>checkLine\<close>; \<open>line.length - 2\<close> is negative for a short line and the loop then
  does not run, as with the truncated subtraction here.\<close>

definition checkLine :: "Player \<Rightarrow> Player option list \<Rightarrow> bool" where
  "checkLine player line =
     for_returns 0 (length line - 2)
       (\<lambda>i. lineAt line i = Some player \<and> lineAt line (i + 1) = Some player
             \<and> lineAt line (i + 2) = Some player)"

text \<open>The four scans of the \<open>connect_3\<close> case, in the order of the source.\<close>

definition connect3_rows :: "Player option list list \<Rightarrow> Player \<Rightarrow> bool" where
  "connect3_rows currentBoard player =
     for_returns 0 (length currentBoard) (\<lambda>r. checkLine player (currentBoard ! r))"

definition connect3_cols :: "Player option list list \<Rightarrow> nat \<Rightarrow> Player \<Rightarrow> bool" where
  "connect3_cols currentBoard numCols player =
     for_returns 0 numCols
       (\<lambda>k. checkLine player (map (\<lambda>row. lineAt row k) currentBoard))"

definition connect3_down :: "Player option list list \<Rightarrow> nat \<Rightarrow> Player \<Rightarrow> bool" where
  "connect3_down currentBoard numCols player =
     for_returns 0 (length currentBoard - 2) (\<lambda>r.
       for_returns 0 (numCols - 2) (\<lambda>k.
         cellAt currentBoard r k = Some player
         \<and> cellAt currentBoard (r + 1) (k + 1) = Some player
         \<and> cellAt currentBoard (r + 2) (k + 2) = Some player))"

definition connect3_up :: "Player option list list \<Rightarrow> nat \<Rightarrow> Player \<Rightarrow> bool" where
  "connect3_up currentBoard numCols player =
     for_returns 2 (length currentBoard) (\<lambda>r.
       for_returns 0 (numCols - 2) (\<lambda>k.
         cellAt currentBoard r k = Some player
         \<and> cellAt currentBoard (r - 1) (k + 1) = Some player
         \<and> cellAt currentBoard (r - 2) (k + 2) = Some player))"

text \<open>\<open>currentBoard.flat().filter((cell) => cell === player).length\<close>.\<close>

definition countCells :: "Player option list list \<Rightarrow> Player \<Rightarrow> nat" where
  "countCells currentBoard player = length (filter (\<lambda>cell. cell = Some player) (concat currentBoard))"

text \<open>\<open>currentBoard.flat().includes(null)\<close>.\<close>

definition includesNull :: "Player option list list \<Rightarrow> bool" where
  "includesNull currentBoard = (None \<in> set (concat currentBoard))"

definition declareWinner :: "Player \<Rightarrow> App \<Rightarrow> bool \<times> App" where
  "declareWinner player s =
     (True, s\<lparr>winner := Some player, gameState := GAME_OVER, message := MsgGameOver\<rparr>)"

text \<open>
  \<open>checkWinCondition\<close> returns its boolean and the state after the \<open>setState\<close> calls it
  made. \<open>currentBoard[0].length\<close> throws a TypeError on a board without rows. The
  guard \<open>if (!gameSettings) return false\<close> never fires: \<open>gameSettings\<close> is always an
  object.
\<close>

definition checkWinCondition ::
  "Player option list list \<Rightarrow> Player \<Rightarrow> App \<Rightarrow> error + (bool \<times> App)" where
  "checkWinCondition currentBoard player s =
     (if currentBoard = [] then Inl TypeError
      else
        (let numCols = length (currentBoard ! 0) in
         case winCondition (gameSettings s) of
           first_to_5 \<Rightarrow>
             if countCells currentBoard player \<ge> 5 then Inr (declareWinner player s)
             else Inr (False, s)
         | connect_3 \<Rightarrow>
             if connect3_rows currentBoard player then Inr (declareWinner player s)
             else if connect3_cols currentBoard numCols player then Inr (declareWinner player s)
             else if connect3_down currentBoard numCols player then Inr (declareWinner player s)
             else if connect3_up currentBoard numCols player then Inr (declareWinner player s)
             else Inr (False, s)
         | most_on_full \<Rightarrow>
             if \<not> includesNull currentBoard then
               (let p1Count = countCells currentBoard player1;
                    p2Count = countCells currentBoard player2
                in Inr (True,
                     s\<lparr>winner :=
                         (if p1Count > p2Count then Some player1
                          else if p2Count > p1Count then Some player2
                          else None),
                       gameState := GAME_OVER\<rparr>))
             else Inr (False, s)))"

subsection \<open>Turns and wheels\<close>

text \<open>
  \<open>changeTurn\<close>, run by a timeout: \<open>player\<close> and \<open>settings\<close> are the \<open>currentPlayer\<close>
  and \<open>gameSettings\<close> of the render that scheduled it, \<open>r\<close> the draw of
  \<open>prepareTurn\<close>.
\<close>

definition changeTurn :: "Player \<Rightarrow> GameSettings \<Rightarrow> nat \<Rightarrow> App \<Rightarrow> App" where
  "changeTurn player settings r s =
     (let nextPlayer = (if player = player1 then player2 else player1)
      in (prepareTurn settings r
            (s\<lparr>currentPlayer := nextPlayer, gameState := SPIN_1_of nextPlayer\<rparr>))
         \<lparr>spinner1Value := None,
          spinner2Value := None,
          spinner1Target := None,
          spinner2Target := None,
          message := MsgTurn (firstName (ps_name (playerSettings settings nextPlayer)))\<rparr>)"

text \<open>
  \<open>handleSpin1Start\<close>: the updater of \<open>setIsSpinning1\<close> returns at once when the wheel
  is already spinning, otherwise it chooses both targets and latches the wheel.
\<close>

definition handleSpin1Start :: "nat \<Rightarrow> nat \<Rightarrow> App \<Rightarrow> error + App" where
  "handleSpin1Start r1 r2 s =
     (if isSpinning1 s then Inr s
      else
        (case chooseTargets (operation (gameSettings s)) (divisionTableNumber s)
                (spinner1Segments s) r1 r2 of
           Inl e \<Rightarrow> Inl e
         | Inr (target1, target2) \<Rightarrow>
             Inr (s\<lparr>spinner1Target := Some target1,
                    spinner2Target := Some target2,
                    message := MsgSpinning,
                    isSpinning1 := True\<rparr>)))"

definition handleSpin1End :: "int \<Rightarrow> App \<Rightarrow> App" where
  "handleSpin1End val s =
     s\<lparr>isSpinning1 := False,
       spinner1Value := Some val,
       gameState := SPIN_2_of (currentPlayer s),
       message := MsgClickRight\<rparr>"

definition handleSpin2Start :: "App \<Rightarrow> App" where
  "handleSpin2Start s =
     (if isSpinning2 s then s
      else s\<lparr>message := MsgSpinning, isSpinning2 := True\<rparr>)"

definition handleSpin2End :: "int \<Rightarrow> App \<Rightarrow> App" where
  "handleSpin2End val s =
     s\<lparr>isSpinning2 := False,
       spinner2Value := Some val,
       gameState := ANSWER_of (currentPlayer s),
       message := MsgQuestion (spinner1Value s) (operation (gameSettings s)) val\<rparr>"

subsection \<open>\<open>handleCellClick\<close>\<close>

text \<open>
  The tail of \<open>handleCellClick\<close>, after the answer was judged: \<open>s\<close> is the state of
  the render the click ran in (its \<open>boardState\<close> is the board before the click),
  \<open>s'\<close> the state after the updates made so far.
\<close>

definition afterAnswer :: "bool \<Rightarrow> App \<Rightarrow> App \<Rightarrow> error + App" where
  "afterAnswer isGameOver s s' =
     (if \<not> isGameOver then
        (let boardIsNowFull = \<not> includesNull (boardState s) in
         if winCondition (gameSettings s) = most_on_full \<and> boardIsNowFull then
           (case checkWinCondition (boardState s) (currentPlayer s) s' of
              Inl e \<Rightarrow> Inl e
            | Inr (b, s'') \<Rightarrow> Inr s'')
         else
           Inr (s'\<lparr>timeouts := timeouts s' @ [ChangeTurn (currentPlayer s) (gameSettings s)]\<rparr>))
      else Inr s')"

text \<open>
  \<open>handleCellClick\<close>. \<open>newBoardState[row][col] = currentPlayer\<close> throws a TypeError
  for a row outside the board. For a column outside the row JavaScript would grow the
  row and leave holes; \<open>Board3D\<close> passes only positions of the layout, and the model
  stops with \<open>OutsideLayout\<close> there instead of describing sparse arrays.
\<close>

definition handleCellClick :: "int \<Rightarrow> nat \<Rightarrow> nat \<Rightarrow> App \<Rightarrow> error + App" where
  "handleCellClick cellValue row col s =
     (if \<not> endsWith_ANSWER (gameState s) \<or> gameState s = GAME_OVER
         \<or> spinner1Value s = None \<or> spinner2Value s = None
      then Inr s
      else
        (let correctResult =
               getCorrectAnswer (operation (gameSettings s))
                 (the (spinner1Value s)) (the (spinner2Value s))
         in
         if correctResult \<noteq> None \<and> Some cellValue = correctResult then
           (if \<not> row < length (boardState s) then Inl TypeError
            else if \<not> col < length (boardState s ! row) then Inl OutsideLayout
            else
              (let newBoardState =
                     (boardState s)[row := (boardState s ! row)[col := Some (currentPlayer s)]];
                   s' = s\<lparr>boardState := newBoardState,
                          message := MsgCorrect (the (spinner1Value s))
                            (operation (gameSettings s)) (the (spinner2Value s)) cellValue\<rparr>
               in case checkWinCondition newBoardState (currentPlayer s) s' of
                    Inl e \<Rightarrow> Inl e
                  | Inr (isGameOver, s'') \<Rightarrow> afterAnswer isGameOver s s''))
         else
           afterAnswer False s
             (s\<lparr>flashingCell := Some (row, col),
                message :=
                  (case correctResult of
                     Some x \<Rightarrow> MsgIncorrect x
                   | None \<Rightarrow> MsgNoInteger (the (spinner1Value s))
                       (operation (gameSettings s)) (the (spinner2Value s))),
                timeouts := timeouts s @ [ClearFlash]\<rparr>)))"

section \<open>Events\<close>

text \<open>
  What reaches the handlers: the set-up dialog, the coin, the wheels, the board cells,
  the restart button, the timeouts, and the \<open>Debug Win\<close> button that \<open>App\<close> renders in
  development builds. The natural numbers are the draws of
  \<open>Math.floor(Math.random() * 10)\<close> the handler makes. \<open>TimeoutFires i r\<close> runs the
  pending callback at position \<open>i\<close>.
\<close>

datatype Event =
    GameStart GameSettings nat
  | Restart
  | CoinFlipComplete Coin nat
  | Spin1Start nat nat
  | Spin1End int
  | Spin2Start
  | Spin2End int
  | CellClick int nat nat
  | TimeoutFires nat nat
  | DebugWin

text \<open>The inline handler of the \<open>Debug Win\<close> button.\<close>

definition debugWin :: "App \<Rightarrow> App" where
  "debugWin s = s\<lparr>winner := Some player1, gameState := GAME_OVER\<rparr>"

fun runTimeout :: "Timeout \<Rightarrow> nat \<Rightarrow> App \<Rightarrow> App" where
  "runTimeout (StartFirstTurn startingPlayer winnerName) r s =
     s\<lparr>gameState := SPIN_1_of startingPlayer, message := MsgTurn winnerName\<rparr>"
| "runTimeout ClearFlash r s = s\<lparr>flashingCell := None\<rparr>"
| "runTimeout (ChangeTurn player settings) r s = changeTurn player settings r s"

definition timeoutFires :: "nat \<Rightarrow> nat \<Rightarrow> App \<Rightarrow> App" where
  "timeoutFires i r s =
     (if i < length (timeouts s) then
        runTimeout (timeouts s ! i) r
          (s\<lparr>timeouts := take i (timeouts s) @ drop (Suc i) (timeouts s)\<rparr>)
      else s)"

fun step :: "Event \<Rightarrow> App \<Rightarrow> error + App" where
  "step (GameStart settings r) s = Inr (handleGameStart settings r s)"
| "step Restart s = Inr (handleRestart s)"
| "step (CoinFlipComplete result r) s = Inr (handleCoinFlipComplete result r s)"
| "step (Spin1Start r1 r2) s = handleSpin1Start r1 r2 s"
| "step (Spin1End val) s = Inr (handleSpin1End val s)"
| "step Spin2Start s = Inr (handleSpin2Start s)"
| "step (Spin2End val) s = Inr (handleSpin2End val s)"
| "step (CellClick cellValue row col) s = handleCellClick cellValue row col s"
| "step (TimeoutFires i r) s = Inr (timeoutFires i r s)"
| "step DebugWin s = Inr (debugWin s)"

text \<open>\<open>import.meta.env.MODE\<close>.\<close>

datatype Mode = development | production

text \<open>
  When the scene raises an event. The set-up dialog is open in \<open>SETUP\<close> and its button
  is disabled while both players have the same colour; the coin is mounted in
  \<open>COIN_FLIP\<close>; a wheel passes its click on when \<open>canSpin1\<close> (\<open>canSpin2\<close>) holds and,
  once set spinning, settles on its target and reports it; every cell of the layout
  passes its value and position on, whatever the phase; the restart button is shown
  when the game is over with a winner; a draw of \<open>Math.random\<close> is below 10. The
  report of a wheel is taken to be the target the state holds at that moment: the
  animation library behind the wheels is not described.
\<close>

fun canRaise :: "Mode \<Rightarrow> Event \<Rightarrow> App \<Rightarrow> bool" where
  "canRaise m (GameStart settings r) s =
     (gameState s = SETUP \<and> r < 10
      \<and> ps_value (settings_player1 settings) \<noteq> ps_value (settings_player2 settings))"
| "canRaise m Restart s = (gameState s = GAME_OVER \<and> winner s \<noteq> None)"
| "canRaise m (CoinFlipComplete result r) s = (gameState s = COIN_FLIP \<and> r < 10)"
| "canRaise m (Spin1Start r1 r2) s =
     (startsWith_PLAYER (currentPlayer s) (gameState s) \<and> endsWith_SPIN_1 (gameState s)
      \<and> r1 < 10 \<and> r2 < 10)"
| "canRaise m (Spin1End val) s =
     (gameState s \<noteq> GAME_OVER \<and> isSpinning1 s \<and> spinner1Target s = Some val
      \<and> val \<in> set (map seg_v (spinner1Segments s)))"
| "canRaise m Spin2Start s =
     (startsWith_PLAYER (currentPlayer s) (gameState s) \<and> endsWith_SPIN_2 (gameState s))"
| "canRaise m (Spin2End val) s =
     (gameState s \<noteq> GAME_OVER \<and> isSpinning2 s \<and> spinner2Target s = Some val
      \<and> val \<in> set (map seg_v DEFAULT_SPINNER_SEGMENTS))"
| "canRaise m (CellClick cellValue row col) s =
     (row < length (boardLayout s) \<and> col < length (boardLayout s ! row)
      \<and> cellValue = boardLayout s ! row ! col)"
| "canRaise m (TimeoutFires i r) s = (i < length (timeouts s) \<and> r < 10)"
| "canRaise m DebugWin s =
     (m = development \<and> gameState s \<noteq> SETUP \<and> gameState s \<noteq> GAME_OVER)"

text \<open>
  A run of the application: the events one after the other, each raised in the state
  the previous one left. \<open>None\<close> when an event could not be raised there or a handler
  threw.
\<close>

fun play :: "Mode \<Rightarrow> Event list \<Rightarrow> App \<Rightarrow> App option" where
  "play m [] s = Some s"
| "play m (e # es) s =
     (if canRaise m e s then
        (case step e s of Inl err \<Rightarrow> None | Inr s' \<Rightarrow> play m es s')
      else None)"

text \<open>Who holds a cell after a run from the initial state.\<close>

definition cellAfter :: "Mode \<Rightarrow> Event list \<Rightarrow> nat \<Rightarrow> nat \<Rightarrow> Player option option" where
  "cellAfter m es r k = map_option (\<lambda>s. cellAt (boardState s) r k) (play m es initialApp)"

section \<open>Runs and states used as examples\<close>

definition stateAfter :: "Mode \<Rightarrow> Event list \<Rightarrow> App option" where
  "stateAfter m es = play m es initialApp"

text \<open>The result \<open>handleCellClick\<close> compares the clicked value with.\<close>

definition expectedResult :: "App \<Rightarrow> int option" where
  "expectedResult s =
     (case (spinner1Value s, spinner2Value s) of
        (Some val1, Some val2) \<Rightarrow> getCorrectAnswer (operation (gameSettings s)) val1 val2
      | _ \<Rightarrow> None)"

text \<open>
  One turn in which the player answers correctly: the wheels are started and settle on
  the drawn values \<open>r1 + 1\<close> and \<open>r2 + 1\<close>, the cell at \<open>(row, col)\<close> is clicked with
  their product, and the hand-off runs.
\<close>

definition claimRound :: "nat \<times> nat \<times> nat \<times> nat \<Rightarrow> Event list" where
  "claimRound q =
     (case q of (r1, r2, row, col) \<Rightarrow>
        [Spin1Start r1 r2, Spin1End (int r1 + 1), Spin2Start, Spin2End (int r2 + 1),
         CellClick ((int r1 + 1) * (int r2 + 1)) row col, TimeoutFires 0 0])"

text \<open>A game of multiplication, player 1 first, up to the first Answer phase (7 times 8).\<close>

definition openingRun :: "WinCondition \<Rightarrow> Event list" where
  "openingRun w =
     [GameStart (DEFAULT_GAME_SETTINGS\<lparr>winCondition := w\<rparr>) 0, CoinFlipComplete cara 0,
      TimeoutFires 0 0]"

definition answerRun :: "Event list" where
  "answerRun = openingRun first_to_5 @ [Spin1Start 6 7, Spin1End 7, Spin2Start, Spin2End 8]"

definition answerState :: App where
  "answerState = the (stateAfter production answerRun)"

text \<open>Player 1 claims 56; in the next turn player 2 draws 7 and 8 as well.\<close>

definition firstClaimRun :: "Event list" where
  "firstClaimRun = openingRun first_to_5 @ claimRound (6, 7, 2, 2)"

definition secondClaimRun :: "Event list" where
  "secondClaimRun =
     firstClaimRun @ [Spin1Start 6 7, Spin1End 7, Spin2Start, Spin2End 8, CellClick 56 2 2]"

text \<open>
  For every cell of the multiplication layout, two draws whose product is its value,
  and its row and column.
\<close>

definition allCells :: "(nat \<times> nat \<times> nat \<times> nat) list" where
  "allCells =
     [(2, 9, 0, 0), (1, 8, 0, 1), (6, 8, 0, 2), (7, 7, 0, 3),
      (3, 6, 0, 4), (0, 6, 0, 5), (0, 7, 0, 6), (3, 7, 1, 0),
      (4, 8, 1, 1), (5, 9, 1, 2), (6, 9, 1, 3), (2, 8, 1, 4),
      (0, 5, 1, 5), (0, 8, 1, 6), (4, 6, 2, 0), (5, 7, 2, 1),
      (6, 7, 2, 2), (7, 8, 2, 3), (4, 4, 2, 4), (0, 4, 2, 5),
      (0, 9, 2, 6), (3, 8, 3, 0), (0, 0, 3, 1), (5, 8, 3, 2),
      (7, 9, 3, 3), (2, 7, 3, 4), (0, 3, 3, 5), (1, 5, 3, 6),
      (3, 9, 4, 0), (1, 7, 4, 1), (4, 9, 4, 2), (8, 8, 4, 3),
      (2, 6, 4, 4), (0, 2, 4, 5), (1, 6, 4, 6), (5, 6, 5, 0),
      (9, 9, 5, 1), (6, 6, 5, 2), (8, 9, 5, 3), (1, 9, 5, 4),
      (0, 1, 5, 5), (2, 4, 5, 6)]"

text \<open>
  A game under \<open>most_on_full\<close> in which every answer is correct and the players claim
  the cells in turn. In the last turn the player first clicks a wrong cell and then,
  before the hand-off of that click runs, the right one, which fills the board and ends
  the game. The hand-off then runs and starts the next turn, which reaches its Answer
  phase on the full board.
\<close>

definition fullBoardRun :: "Event list" where
  "fullBoardRun =
     openingRun most_on_full
     @ concat (map claimRound (butlast allCells))
     @ [Spin1Start 2 4, Spin1End 3, Spin2Start, Spin2End 5,
        CellClick 30 0 0, CellClick 15 5 6, TimeoutFires 0 0, TimeoutFires 0 0,
        Spin1Start 6 7, Spin1End 7, Spin2Start, Spin2End 8]"


text \<open>Both wheels latched.\<close>

definition spinningState :: App where
  "spinningState =
     initialApp\<lparr>gameState := PLAYER_1_SPIN_1, isSpinning1 := True, isSpinning2 := True,
                spinner1Target := Some 7, spinner2Target := Some 8\<rparr>"

section \<open>Three in a line, as the specification words it\<close>

text \<open>
  The \<open>connect_3\<close> condition in the words of the specification: somewhere on the board
  three consecutive cells owned by the player lie in a row, in a column, or on a
  diagonal running down-right or up-right. A position outside the board is owned by
  nobody.
\<close>

definition owns :: "Player option list list \<Rightarrow> Player \<Rightarrow> nat \<Rightarrow> nat \<Rightarrow> bool" where
  "owns board player r k = (cellAt board r k = Some player)"

definition width :: "Player option list list \<Rightarrow> nat" where
  "width board = (case board of [] \<Rightarrow> 0 | row # rest \<Rightarrow> length row)"

definition threeInLine :: "Player option list list \<Rightarrow> Player \<Rightarrow> bool" where
  "threeInLine board player =
     (\<exists>r\<in>set [0..<length board]. \<exists>k\<in>set [0..<width board].
        (owns board player r k \<and> owns board player r (k + 1) \<and> owns board player r (k + 2))
      \<or> (owns board player r k \<and> owns board player (r + 1) k \<and> owns board player (r + 2) k)
      \<or> (owns board player r k \<and> owns board player (r + 1) (k + 1)
           \<and> owns board player (r + 2) (k + 2))
      \<or> (2 \<le> r \<and> owns board player r k \<and> owns board player (r - 1) (k + 1)
           \<and> owns board player (r - 2) (k + 2)))"

text \<open>A board whose rows all have the length of the first, as the 6 by 7 board has.\<close>

definition rectangular :: "Player option list list \<Rightarrow> bool" where
  "rectangular board = (board \<noteq> [] \<and> (\<forall>row\<in>set board. length row = width board))"

text \<open>A board with player 1 on an up-right diagonal, and one without a line of three.\<close>

definition diagonalBoard :: "Player option list list" where
  "diagonalBoard =
     [[None, None, None, None, None, None, None],
      [None, None, None, None, None, Some player1, None],
      [None, None, None, None, Some player1, Some player2, None],
      [None, None, None, Some player1, Some player2, None, None],
      [None, None, None, None, None, None, None],
      [None, None, None, None, None, None, None]]"

definition scatteredBoard :: "Player option list list" where
  "scatteredBoard =
     [[Some player1, Some player1, None, Some player1, None, None, None],
      [None, None, None, None, None, None, None],
      [Some player1, None, None, None, None, None, None],
      [None, None, None, None, None, None, None],
      [None, None, None, None, None, None, None],
      [None, None, None, None, None, None, None]]"

text \<open>The initial state with another win condition, and a full board shared 21 to 21.\<close>

definition settingsWith :: "WinCondition \<Rightarrow> App" where
  "settingsWith w = initialApp\<lparr>gameSettings := DEFAULT_GAME_SETTINGS\<lparr>winCondition := w\<rparr>\<rparr>"



section \<open>The test behind a declared win\<close>

text \<open>
  The test \<open>checkWinCondition\<close> makes on the board before it ends the game, per win
  condition, with \<open>numCols\<close> the length of the first row.
\<close>

definition winConditionMet :: "WinCondition \<Rightarrow> Player option list list \<Rightarrow> Player \<Rightarrow> bool" where
  "winConditionMet w currentBoard player =
     (case w of
        first_to_5 \<Rightarrow> countCells currentBoard player \<ge> 5
      | connect_3 \<Rightarrow>
          connect3_rows currentBoard player
          \<or> connect3_cols currentBoard (length (currentBoard ! 0)) player
          \<or> connect3_down currentBoard (length (currentBoard ! 0)) player
          \<or> connect3_up currentBoard (length (currentBoard ! 0)) player
      | most_on_full \<Rightarrow> \<not> includesNull currentBoard)"


definition secondAnswerState :: App where
  "secondAnswerState =
     the (stateAfter production
            (firstClaimRun @ [Spin1Start 6 7, Spin1End 7, Spin2Start, Spin2End 8]))"

definition almostWonState :: App where
  "almostWonState = answerState\<lparr>boardState := scatteredBoard\<rparr>"

section \<open>What stays true through a division game\<close>

text \<open>
  The numbers wheel 1 can show for a table number, and the fields of a round: the table
  number, the segments of wheel 1, the two targets and the two operands.
\<close>

definition multiples :: "int \<Rightarrow> int list" where
  "multiples t = map seg_v (newSegments t)"

definition multipleOf :: "int \<Rightarrow> int option \<Rightarrow> bool" where
  "multipleOf t x = (case x of None \<Rightarrow> True | Some a \<Rightarrow> a \<in> set (multiples t))"

definition tableOr :: "int \<Rightarrow> int option \<Rightarrow> bool" where
  "tableOr t x = (case x of None \<Rightarrow> True | Some b \<Rightarrow> b = t)"

definition roundReady :: "int \<Rightarrow> App \<Rightarrow> bool" where
  "roundReady t s =
     (1 \<le> t \<and> t \<le> 10
      \<and> divisionTableNumber s = Some t \<and> spinner1Segments s = newSegments t
      \<and> multipleOf t (spinner1Target s) \<and> tableOr t (spinner2Target s)
      \<and> multipleOf t (spinner1Value s) \<and> tableOr t (spinner2Value s))"

definition noRound :: "App \<Rightarrow> bool" where
  "noRound s =
     (spinner1Target s = None \<and> spinner2Target s = None
      \<and> spinner1Value s = None \<and> spinner2Value s = None)"

definition sameRound :: "App \<Rightarrow> App \<Rightarrow> bool" where
  "sameRound s s' =
     (gameSettings s' = gameSettings s
      \<and> divisionTableNumber s' = divisionTableNumber s
      \<and> spinner1Segments s' = spinner1Segments s
      \<and> spinner1Target s' = spinner1Target s \<and> spinner2Target s' = spinner2Target s
      \<and> spinner1Value s' = spinner1Value s \<and> spinner2Value s' = spinner2Value s)"






section \<open>Facts about the generator\<close>

declare for_returns.simps [simp del]

lemma producible_iff:
  "x \<in> set (producible opn) \<longleftrightarrow>
     (\<exists>r0<10. \<exists>r1<10. \<exists>r2<10. roundResult opn r0 r1 r2 = Some x)"
  unfolding producible_def
  apply (auto split: option.splits)
   apply blast
  apply (metis atLeastLessThan_iff le0)
  done

lemma roundResult_Add: "roundResult Add r0 r1 r2 = Some (int r1 + int r2 + 2)"
  by (simp add: roundResult_def roundOperands_def chooseTargets_def)

lemma roundResult_Subtract:
  "roundResult Subtract r0 r1 r2 =
     Some (max (int r1 + 1) (int r2 + 1) - min (int r1 + 1) (int r2 + 1))"
  by (simp add: roundResult_def roundOperands_def chooseTargets_def Let_def)

lemma newSegments_nth: "i < 10 \<Longrightarrow> seg_v (newSegments t ! i) = t * (int i + 1)"
  by (simp add: newSegments_def)

lemma length_newSegments: "length (newSegments t) = 10"
  by (simp add: newSegments_def)

lemma roundOperands_Divide:
  "r1 < 10 \<Longrightarrow>
   roundOperands Divide r0 r1 r2 = Inr ((int r0 + 1) * (int r1 + 1), int r0 + 1)"
  by (simp add: roundOperands_def chooseTargets_def newSegments_nth length_newSegments)

lemma getCorrectAnswer_multiple:
  "0 < t \<Longrightarrow> 0 \<le> m \<Longrightarrow> getCorrectAnswer Divide (t * m) t = Some m"
  by (simp add: js_rem_def abs_mult sgn_mult)

lemma roundResult_Divide: "r1 < 10 \<Longrightarrow> roundResult Divide r0 r1 r2 = Some (int r1 + 1)"
  using getCorrectAnswer_multiple [of "int r0 + 1" "int r1 + 1"]
  by (simp add: roundResult_def roundOperands_Divide)

lemma js_rem_zero_iff: "js_rem a b = Some 0 \<longleftrightarrow> b \<noteq> 0 \<and> a mod b = 0"
proof (cases "b = 0")
  case True
  then show ?thesis by (simp add: js_rem_def)
next
  case False
  have "\<bar>a\<bar> mod \<bar>b\<bar> = 0 \<longleftrightarrow> a mod b = 0"
    by (simp add: dvd_eq_mod_eq_0 [symmetric])
  moreover have "sgn a * (\<bar>a\<bar> mod \<bar>b\<bar>) = 0 \<longleftrightarrow> \<bar>a\<bar> mod \<bar>b\<bar> = 0"
    by (cases "a = 0") (auto simp: sgn_if)
  ultimately show ?thesis using False by (simp add: js_rem_def)
qed


section \<open>The board layouts\<close>

lemma boards_shape:
  "length (PREDEFINED_BOARDS opn) = 6 \<and> (\<forall>row\<in>set (PREDEFINED_BOARDS opn). length row = 7)"
  by (cases opn) simp_all

lemma boards_distinct: "distinct (concat (PREDEFINED_BOARDS opn))"
  by (cases opn) simp_all

lemma boards_nonneg: "\<forall>x\<in>set (concat (PREDEFINED_BOARDS opn)). 0 \<le> x"
  by (cases opn) simp_all

lemma boards_positive:
  "opn \<noteq> Subtract \<Longrightarrow> \<forall>x\<in>set (concat (PREDEFINED_BOARDS opn)). 0 < x"
  by (cases opn) simp_all

lemma producible_Add: "set (producible Add) \<subseteq> set (concat (PREDEFINED_BOARDS Add))"
proof
  fix x assume "x \<in> set (producible Add)"
  then obtain r1 r2 :: nat where "r1 < 10" "r2 < 10" "x = int r1 + int r2 + 2"
    by (auto simp: producible_iff roundResult_Add)
  then have "2 \<le> x" "x \<le> 20" by auto
  then show "x \<in> set (concat (PREDEFINED_BOARDS Add))"
    by (simp; arith)
qed

lemma producible_Subtract:
  "set (producible Subtract) \<subseteq> set (concat (PREDEFINED_BOARDS Subtract))"
proof
  fix x assume "x \<in> set (producible Subtract)"
  then obtain r1 r2 :: nat where "r1 < 10" "r2 < 10"
    "x = max (int r1 + 1) (int r2 + 1) - min (int r1 + 1) (int r2 + 1)"
    by (auto simp: producible_iff roundResult_Subtract)
  then have "0 \<le> x" "x \<le> 9" by auto
  then show "x \<in> set (concat (PREDEFINED_BOARDS Subtract))"
    by (simp; arith)
qed

lemma producible_Divide: "set (producible Divide) \<subseteq> set (concat (PREDEFINED_BOARDS Divide))"
proof
  fix x assume "x \<in> set (producible Divide)"
  then obtain r1 :: nat where "r1 < 10" "x = int r1 + 1"
    by (auto simp: producible_iff roundResult_Divide)
  then have "1 \<le> x" "x \<le> 10" by auto
  then show "x \<in> set (concat (PREDEFINED_BOARDS Divide))"
    by (simp; arith)
qed

lemma roundResult_Multiply:
  "roundResult Multiply r0 r1 r2 = Some ((int r1 + 1) * (int r2 + 1))"
  by (simp add: roundResult_def roundOperands_def chooseTargets_def)

lemma producible_Multiply_set:
  "set (producible Multiply) =
     (\<Union>r1\<in>{0..<10}. \<Union>r2\<in>{0..<10}. {(int r1 + 1) * (int r2 + 1)})"
  unfolding producible_def by (simp only: roundResult_Multiply) auto

lemma producible_Multiply:
  "set (producible Multiply) = set (concat (PREDEFINED_BOARDS Multiply))"
  unfolding producible_Multiply_set
  by code_simp

lemma producible_covered: "set (producible opn) \<subseteq> set (concat (PREDEFINED_BOARDS opn))"
  using producible_Add producible_Subtract producible_Divide producible_Multiply
  by (cases opn) blast+

text \<open>
  C2, as amended. Each of the four layouts has 6 rows of 7 values, 42 distinct integers
  none of which is negative, and positive except for the 0 of the subtraction layout.
  Every result the generator can produce under an operation is in that operation's
  layout. For multiplication the layout is exactly the set of producible results; the
  other three layouts also hold values no operand pair produces.
\<close>

theorem C2_layouts:
  "length (PREDEFINED_BOARDS opn) = 6
   \<and> (\<forall>row\<in>set (PREDEFINED_BOARDS opn). length row = 7)
   \<and> distinct (concat (PREDEFINED_BOARDS opn))
   \<and> (\<forall>x\<in>set (concat (PREDEFINED_BOARDS opn)). 0 \<le> x \<and> (opn \<noteq> Subtract \<longrightarrow> 0 < x))
   \<and> set (producible opn) \<subseteq> set (concat (PREDEFINED_BOARDS opn))
   \<and> set (concat (PREDEFINED_BOARDS Multiply)) = set (producible Multiply)"
  using boards_shape [of opn] boards_distinct [of opn] boards_nonneg [of opn]
    boards_positive [of opn] producible_covered [of opn] producible_Multiply
  by blast

theorem C2_layouts_witness:
  "length (PREDEFINED_BOARDS Divide) = 6
   \<and> [9, 2, 8, 6, 10, 14, 18] \<in> set (PREDEFINED_BOARDS Divide)
   \<and> length [9 :: int, 2, 8, 6, 10, 14, 18] = 7
   \<and> (81 :: int) \<in> set (concat (PREDEFINED_BOARDS Divide)) \<and> (0 :: int) < 81
   \<and> Divide \<noteq> Subtract
   \<and> roundResult Divide 2 6 0 = Some 7
   \<and> 7 \<in> set (concat (PREDEFINED_BOARDS Divide))"
  using C2_layouts [of Divide]
  by (simp add: roundResult_Divide)

text \<open>
  C2 as stated fails: the subtraction layout holds 0, which is not positive, and the
  addition, subtraction and division layouts hold values (42, 41, 81) that no pair of
  operands of the generator produces.
\<close>

theorem C2_layout_counterexample:
  "(0 :: int) \<in> set (concat (PREDEFINED_BOARDS Subtract)) \<and> \<not> (0 :: int) < 0
   \<and> 42 \<in> set (concat (PREDEFINED_BOARDS Add)) \<and> 42 \<notin> set (producible Add)
   \<and> 41 \<in> set (concat (PREDEFINED_BOARDS Subtract)) \<and> 41 \<notin> set (producible Subtract)
   \<and> 81 \<in> set (concat (PREDEFINED_BOARDS Divide)) \<and> 81 \<notin> set (producible Divide)"
  by (auto simp: producible_iff roundResult_Add roundResult_Subtract roundResult_Divide)

section \<open>Judging an answer\<close>

lemma checkWinCondition_most_on_full:
  "winCondition (gameSettings s) = most_on_full \<Longrightarrow> currentBoard \<noteq> [] \<Longrightarrow>
   checkWinCondition currentBoard player s =
     (if includesNull currentBoard then Inr (False, s)
      else Inr (True,
        s\<lparr>winner :=
            (if countCells currentBoard player1 > countCells currentBoard player2
             then Some player1
             else if countCells currentBoard player2 > countCells currentBoard player1
             then Some player2
             else None),
          gameState := GAME_OVER\<rparr>))"
  by (simp add: checkWinCondition_def Let_def)

lemma incorrect_click:
  assumes "endsWith_ANSWER (gameState s)"
    and "spinner1Value s = Some a" and "spinner2Value s = Some b"
    and "getCorrectAnswer (operation (gameSettings s)) a b \<noteq> Some cellValue"
    and "\<not> (winCondition (gameSettings s) = most_on_full \<and> \<not> includesNull (boardState s))"
  shows "handleCellClick cellValue row col s =
     Inr (s\<lparr>flashingCell := Some (row, col),
            message := (case getCorrectAnswer (operation (gameSettings s)) a b of
                          Some x \<Rightarrow> MsgIncorrect x
                        | None \<Rightarrow> MsgNoInteger a (operation (gameSettings s)) b),
            timeouts := timeouts s @ [ClearFlash, ChangeTurn (currentPlayer s) (gameSettings s)]\<rparr>)"
proof -
  have "gameState s \<noteq> GAME_OVER" using assms(1) by auto
  then show ?thesis
    using assms
    by (auto simp: handleCellClick_def afterAnswer_def Let_def split: option.splits)
qed

lemma incorrect_click_full:
  assumes "endsWith_ANSWER (gameState s)"
    and "spinner1Value s = Some a" and "spinner2Value s = Some b"
    and "getCorrectAnswer (operation (gameSettings s)) a b \<noteq> Some cellValue"
    and "winCondition (gameSettings s) = most_on_full" and "\<not> includesNull (boardState s)"
    and "boardState s \<noteq> []"
  shows "handleCellClick cellValue row col s =
     Inr (s\<lparr>flashingCell := Some (row, col),
            message := (case getCorrectAnswer (operation (gameSettings s)) a b of
                          Some x \<Rightarrow> MsgIncorrect x
                        | None \<Rightarrow> MsgNoInteger a (operation (gameSettings s)) b),
            timeouts := timeouts s @ [ClearFlash],
            winner :=
              (if countCells (boardState s) player1 > countCells (boardState s) player2
               then Some player1
               else if countCells (boardState s) player2 > countCells (boardState s) player1
               then Some player2
               else None),
            gameState := GAME_OVER\<rparr>)"
proof -
  have "gameState s \<noteq> GAME_OVER" using assms(1) by auto
  then show ?thesis
    using assms
    by (auto simp: handleCellClick_def afterAnswer_def Let_def checkWinCondition_most_on_full
        split: option.splits)
qed

lemma changeTurn_fields:
  "gameState (changeTurn p st r u) = SPIN_1_of (if p = player1 then player2 else player1)"
  "currentPlayer (changeTurn p st r u) = (if p = player1 then player2 else player1)"
  "spinner1Value (changeTurn p st r u) = None"
  "spinner2Value (changeTurn p st r u) = None"
  "spinner1Target (changeTurn p st r u) = None"
  "spinner2Target (changeTurn p st r u) = None"
  "boardState (changeTurn p st r u) = boardState u"
  "winner (changeTurn p st r u) = winner u"
  by (simp_all add: changeTurn_def prepareTurn_def Let_def)



lemma answerState_fields:
  "gameState answerState = PLAYER_1_ANSWER"
  "currentPlayer answerState = player1"
  "spinner1Value answerState = Some 7"
  "spinner2Value answerState = Some 8"
  "operation (gameSettings answerState) = Multiply"
  "winCondition (gameSettings answerState) = first_to_5"
  "timeouts answerState = []"
  "boardState answerState = initialBoardState"
  by code_simp+



text \<open>
  C8. Starting a wheel that is already spinning changes nothing, so the targets chosen
  by the first start stay as they are, whatever the second call would have drawn;
  starting twice is starting once.
\<close>

theorem C8_spin_start_latch:
  "(isSpinning1 s \<longrightarrow> handleSpin1Start r1 r2 s = Inr s)
   \<and> (handleSpin1Start r1 r2 s = Inr s' \<longrightarrow> handleSpin1Start q1 q2 s' = Inr s')
   \<and> (isSpinning2 s \<longrightarrow> handleSpin2Start s = s)
   \<and> handleSpin2Start (handleSpin2Start s) = handleSpin2Start s"
  by (auto simp: handleSpin1Start_def handleSpin2Start_def split: sum.splits if_splits)

theorem C8_spin_start_latch_witness:
  "isSpinning1 spinningState \<and> isSpinning2 spinningState
   \<and> handleSpin1Start 2 3 spinningState = Inr spinningState
   \<and> handleSpin1Start 4 5 spinningState = Inr spinningState
   \<and> spinner1Target spinningState = Some 7
   \<and> handleSpin2Start spinningState = spinningState"
proof -
  have h: "isSpinning1 spinningState \<and> isSpinning2 spinningState
      \<and> spinner1Target spinningState = Some 7"
    by (simp add: spinningState_def)
  show ?thesis
    using h C8_spin_start_latch [of spinningState 2 3 spinningState 4 5]
    by simp
qed

text \<open>
  C9, as amended. An incorrect selection in an Answer phase never changes the board.
  Unless the win condition is \<open>most_on_full\<close> and the board has no unclaimed cell, it
  changes only the highlighted cell, the message and the pending timeouts (the end of
  the highlight and the hand-off), so no winner is set. In the excepted case it ends
  the game: the phase becomes \<open>GAME_OVER\<close>, the winner is set to the player with more
  cells, and no hand-off is scheduled.
\<close>

theorem C9_incorrect_selection_frame:
  assumes "endsWith_ANSWER (gameState s)"
    and "spinner1Value s = Some a" and "spinner2Value s = Some b"
    and "getCorrectAnswer (operation (gameSettings s)) a b \<noteq> Some cellValue"
    and "boardState s \<noteq> []"
  shows "\<exists>s'. handleCellClick cellValue row col s = Inr s'
      \<and> boardState s' = boardState s
      \<and> (if winCondition (gameSettings s) = most_on_full \<and> \<not> includesNull (boardState s)
         then s' = s\<lparr>flashingCell := Some (row, col), message := message s',
                      timeouts := timeouts s @ [ClearFlash],
                      winner := winner s', gameState := GAME_OVER\<rparr>
              \<and> (winner s' = Some player1
                    \<longleftrightarrow> countCells (boardState s) player1 > countCells (boardState s) player2)
              \<and> (winner s' = Some player2
                    \<longleftrightarrow> countCells (boardState s) player2 > countCells (boardState s) player1)
         else s' = s\<lparr>flashingCell := Some (row, col), message := message s',
                      timeouts := timeouts s
                        @ [ClearFlash, ChangeTurn (currentPlayer s) (gameSettings s)]\<rparr>
              \<and> winner s' = winner s \<and> gameState s' = gameState s)"
proof (cases "winCondition (gameSettings s) = most_on_full \<and> \<not> includesNull (boardState s)")
  case True
  then show ?thesis
    using incorrect_click_full [OF assms(1-4), of row col] assms(5) by auto
next
  case False
  then show ?thesis
    using incorrect_click [OF assms(1-4), of row col] by auto
qed

theorem C9_incorrect_selection_frame_witness:
  "endsWith_ANSWER (gameState answerState)
   \<and> spinner1Value answerState = Some 7 \<and> spinner2Value answerState = Some 8
   \<and> getCorrectAnswer (operation (gameSettings answerState)) 7 8 \<noteq> Some 30
   \<and> boardState answerState \<noteq> []
   \<and> (\<exists>s'. handleCellClick 30 0 0 answerState = Inr s'
         \<and> boardState s' = initialBoardState
         \<and> winner s' = winner answerState
         \<and> gameState s' = PLAYER_1_ANSWER)"
proof -
  have h: "endsWith_ANSWER (gameState answerState)"
    "spinner1Value answerState = Some 7" "spinner2Value answerState = Some 8"
    "getCorrectAnswer (operation (gameSettings answerState)) 7 8 \<noteq> Some 30"
    "boardState answerState \<noteq> []"
    by (simp_all add: answerState_fields initialBoardState_def)
  show ?thesis
    using h C9_incorrect_selection_frame [OF h, of 0 0]
    by (auto simp: answerState_fields)
qed

text \<open>
  C9 as stated fails. In the run \<open>fullBoardRun\<close> the application is in player 1's
  Answer phase, expecting 56, on a board without unclaimed cells under
  \<open>most_on_full\<close>, with no timeout pending. Clicking the cell of value 30 there ends
  the game: the phase becomes \<open>GAME_OVER\<close> and the only timeout scheduled is the end of
  the highlight, not a hand-off.
\<close>

theorem C9_counterexample:
  "map_option gameState (stateAfter production fullBoardRun) = Some PLAYER_1_ANSWER
   \<and> map_option expectedResult (stateAfter production fullBoardRun) = Some (Some 56)
   \<and> map_option timeouts (stateAfter production fullBoardRun) = Some []
   \<and> map_option gameState (stateAfter production (fullBoardRun @ [CellClick 30 0 0]))
       = Some GAME_OVER
   \<and> map_option timeouts (stateAfter production (fullBoardRun @ [CellClick 30 0 0]))
       = Some [ClearFlash]"
  by code_simp

section \<open>Win conditions\<close>

lemma for_returns_iff: "for_returns i hi body \<longleftrightarrow> (\<exists>j. i \<le> j \<and> j < hi \<and> body j)"
proof (induction i hi body rule: for_returns.induct)
  case (1 i hi body)
  show ?case
  proof (cases "i < hi")
    case False
    then show ?thesis by (subst for_returns.simps) auto
  next
    case True
    show ?thesis
    proof (cases "body i")
      case True
      with \<open>i < hi\<close> show ?thesis by (subst for_returns.simps) auto
    next
      case False
      with \<open>i < hi\<close> 1 have "for_returns i hi body \<longleftrightarrow> (\<exists>j. Suc i \<le> j \<and> j < hi \<and> body j)"
        by (subst for_returns.simps) simp
      also have "\<dots> \<longleftrightarrow> (\<exists>j. i \<le> j \<and> j < hi \<and> body j)"
        using False by (metis Suc_leD le_neq_implies_less not_less_eq_eq order_refl le_antisym)
      finally show ?thesis .
    qed
  qed
qed

lemma lineAt_Some: "lineAt line i = Some p \<Longrightarrow> i < length line"
  by (simp add: lineAt_def split: if_splits)

lemma cellAt_Some: "cellAt board r k = Some p \<Longrightarrow> r < length board \<and> k < length (board ! r)"
  by (auto simp: cellAt_def lineAt_def split: if_splits)

lemma cellAt_rectangular:
  "rectangular board \<Longrightarrow> cellAt board r k = Some p \<Longrightarrow> r < length board \<and> k < width board"
  using cellAt_Some [of board r k p] by (auto simp: rectangular_def)

lemma width_nth0: "board \<noteq> [] \<Longrightarrow> length (board ! 0) = width board"
  by (cases board) (simp_all add: width_def)

lemma checkLine_iff:
  "checkLine p line \<longleftrightarrow>
     (\<exists>i. lineAt line i = Some p \<and> lineAt line (i + 1) = Some p \<and> lineAt line (i + 2) = Some p)"
proof -
  have "lineAt line (i + 2) = Some p \<Longrightarrow> i < length line - 2" for i
    using lineAt_Some [of line "i + 2" p] by simp
  then show ?thesis
    unfolding checkLine_def for_returns_iff by auto
qed

lemma connect3_rows_iff:
  "connect3_rows board p \<longleftrightarrow>
     (\<exists>r k. owns board p r k \<and> owns board p r (k + 1) \<and> owns board p r (k + 2))"
  unfolding connect3_rows_def for_returns_iff checkLine_iff owns_def cellAt_def
  by (auto split: if_splits)

lemma lineAt_column: "lineAt (map (\<lambda>row. lineAt row k) board) i = cellAt board i k"
  by (simp add: lineAt_def cellAt_def)

lemma connect3_cols_iff:
  assumes "rectangular board"
  shows "connect3_cols board (width board) p \<longleftrightarrow>
     (\<exists>r k. owns board p r k \<and> owns board p (r + 1) k \<and> owns board p (r + 2) k)"
  unfolding connect3_cols_def for_returns_iff checkLine_iff lineAt_column owns_def
  using cellAt_rectangular [OF assms] by auto

lemma connect3_down_iff:
  assumes "rectangular board"
  shows "connect3_down board (width board) p \<longleftrightarrow>
     (\<exists>r k. owns board p r k \<and> owns board p (r + 1) (k + 1) \<and> owns board p (r + 2) (k + 2))"
proof -
  have "cellAt board (r + 2) (k + 2) = Some p \<Longrightarrow> r < length board - 2 \<and> k < width board - 2"
    for r k
    using cellAt_rectangular [OF assms, of "r + 2" "k + 2" p] by auto
  then show ?thesis
    unfolding connect3_down_def for_returns_iff owns_def by auto
qed

lemma connect3_up_iff:
  assumes "rectangular board"
  shows "connect3_up board (width board) p \<longleftrightarrow>
     (\<exists>r k. 2 \<le> r \<and> owns board p r k \<and> owns board p (r - 1) (k + 1)
        \<and> owns board p (r - 2) (k + 2))"
proof -
  have "cellAt board r k = Some p \<Longrightarrow> cellAt board (r - 2) (k + 2) = Some p
      \<Longrightarrow> r < length board \<and> k < width board - 2" for r k
    using cellAt_rectangular [OF assms, of r k p]
      cellAt_rectangular [OF assms, of "r - 2" "k + 2" p] by auto
  then show ?thesis
    unfolding connect3_up_def for_returns_iff owns_def by auto
qed

lemma threeInLine_iff:
  assumes "rectangular board"
  shows "threeInLine board p \<longleftrightarrow>
     (\<exists>r k. owns board p r k \<and> owns board p r (k + 1) \<and> owns board p r (k + 2))
   \<or> (\<exists>r k. owns board p r k \<and> owns board p (r + 1) k \<and> owns board p (r + 2) k)
   \<or> (\<exists>r k. owns board p r k \<and> owns board p (r + 1) (k + 1) \<and> owns board p (r + 2) (k + 2))
   \<or> (\<exists>r k. 2 \<le> r \<and> owns board p r k \<and> owns board p (r - 1) (k + 1)
        \<and> owns board p (r - 2) (k + 2))"
proof -
  have b: "owns board p r k \<Longrightarrow> r \<in> set [0..<length board] \<and> k \<in> set [0..<width board]" for r k
    using cellAt_rectangular [OF assms, of r k p] by (simp add: owns_def)
  show ?thesis
    unfolding threeInLine_def
    apply (rule iffI)
     apply blast
    apply (elim disjE exE conjE)
       apply (frule b, blast)
      apply (frule b, blast)
     apply (frule b, blast)
    apply (frule b, blast)
    done
qed

lemma threeInLine_scans:
  assumes "rectangular board"
  shows "threeInLine board p \<longleftrightarrow>
     connect3_rows board p \<or> connect3_cols board (width board) p
     \<or> connect3_down board (width board) p \<or> connect3_up board (width board) p"
  by (simp only: threeInLine_iff [OF assms] connect3_rows_iff connect3_cols_iff [OF assms]
      connect3_down_iff [OF assms] connect3_up_iff [OF assms])

lemma checkWinCondition_connect_3:
  assumes "winCondition (gameSettings s) = connect_3" and "rectangular currentBoard"
  shows "checkWinCondition currentBoard player s =
     (if threeInLine currentBoard player then Inr (declareWinner player s) else Inr (False, s))"
proof -
  have ne: "currentBoard \<noteq> []" using assms(2) by (simp add: rectangular_def)
  show ?thesis
    unfolding threeInLine_scans [OF assms(2)]
    using ne assms(1)
    by (auto simp: checkWinCondition_def Let_def width_nth0 [OF ne])
qed

text \<open>
  C5. Under \<open>connect_3\<close>, on every board whose rows have one length (the game's board
  has 6 rows of 7 cells), \<open>checkWinCondition\<close> declares the player the winner (it
  returns true, sets the winner to that player and the phase to \<open>GAME_OVER\<close>) if the
  board has three consecutive cells of that player in a row, a column or on either
  diagonal, and otherwise returns false and changes nothing.
\<close>

theorem C5_connect_3:
  assumes "winCondition (gameSettings s) = connect_3" and "rectangular currentBoard"
  shows "(threeInLine currentBoard player \<longrightarrow>
            checkWinCondition currentBoard player s =
              Inr (True, s\<lparr>winner := Some player, gameState := GAME_OVER,
                            message := MsgGameOver\<rparr>))
       \<and> (\<not> threeInLine currentBoard player \<longrightarrow>
            checkWinCondition currentBoard player s = Inr (False, s))"
  using checkWinCondition_connect_3 [OF assms, of player]
  by (simp add: declareWinner_def)

theorem C5_connect_3_witness:
  "winCondition (gameSettings (settingsWith connect_3)) = connect_3
   \<and> rectangular diagonalBoard \<and> rectangular scatteredBoard
   \<and> threeInLine diagonalBoard player1 \<and> \<not> threeInLine scatteredBoard player1
   \<and> checkWinCondition diagonalBoard player1 (settingsWith connect_3) =
       Inr (True, (settingsWith connect_3)\<lparr>winner := Some player1, gameState := GAME_OVER,
                    message := MsgGameOver\<rparr>)
   \<and> checkWinCondition scatteredBoard player1 (settingsWith connect_3) =
       Inr (False, settingsWith connect_3)"
proof -
  have h1: "winCondition (gameSettings (settingsWith connect_3)) = connect_3"
    by (simp add: settingsWith_def)
  have h2: "rectangular diagonalBoard" "rectangular scatteredBoard"
    by (simp_all add: rectangular_def diagonalBoard_def scatteredBoard_def width_def)
  have h3: "threeInLine diagonalBoard player1"
    by code_simp
  have h4: "\<not> threeInLine scatteredBoard player1"
    by code_simp
  show ?thesis
    using h1 h2 h3 h4 C5_connect_3 [OF h1 h2(1), of player1] C5_connect_3 [OF h1 h2(2), of player1]
    by simp
qed

section \<open>The board through the events\<close>

lemma checkWinCondition_frame:
  assumes "checkWinCondition currentBoard player s = Inr (b, s')"
  shows "boardState s' = boardState s \<and> timeouts s' = timeouts s
       \<and> gameSettings s' = gameSettings s \<and> currentPlayer s' = currentPlayer s"
proof (cases "winCondition (gameSettings s)")
  case first_to_5
  then show ?thesis using assms
    by (auto simp: checkWinCondition_def declareWinner_def Let_def split: if_splits)
next
  case connect_3
  then show ?thesis using assms
    by (simp add: checkWinCondition_def declareWinner_def Let_def split: if_splits) auto
next
  case most_on_full
  then show ?thesis using assms
    by (auto simp: checkWinCondition_def Let_def split: if_splits)
qed

lemma afterAnswer_cases:
  assumes "afterAnswer isGameOver s u = Inr s'"
  shows "(isGameOver \<and> s' = u)
       \<or> (\<not> isGameOver \<and> winCondition (gameSettings s) = most_on_full
           \<and> \<not> includesNull (boardState s)
           \<and> (\<exists>b. checkWinCondition (boardState s) (currentPlayer s) u = Inr (b, s')))
       \<or> (\<not> isGameOver
           \<and> \<not> (winCondition (gameSettings s) = most_on_full \<and> \<not> includesNull (boardState s))
           \<and> s' = u\<lparr>timeouts := timeouts u @ [ChangeTurn (currentPlayer s) (gameSettings s)]\<rparr>)"
proof (cases isGameOver)
  case True
  then show ?thesis using assms by (simp add: afterAnswer_def)
next
  case ng: False
  show ?thesis
  proof (cases "winCondition (gameSettings s) = most_on_full \<and> \<not> includesNull (boardState s)")
    case True
    with ng assms
    have "(case checkWinCondition (boardState s) (currentPlayer s) u of
             Inl e \<Rightarrow> Inl e | Inr (b, s'') \<Rightarrow> Inr s'') = Inr s'"
      by (simp add: afterAnswer_def)
    then have "\<exists>b. checkWinCondition (boardState s) (currentPlayer s) u = Inr (b, s')"
      by (cases "checkWinCondition (boardState s) (currentPlayer s) u") auto
    with ng True show ?thesis by blast
  next
    case False
    with ng assms
    have "s' = u\<lparr>timeouts := timeouts u @ [ChangeTurn (currentPlayer s) (gameSettings s)]\<rparr>"
      by (auto simp: afterAnswer_def)
    with ng False show ?thesis by blast
  qed
qed

lemma afterAnswer_board:
  assumes "afterAnswer isGameOver s u = Inr s'"
  shows "boardState s' = boardState u"
proof -
  consider (over) "s' = u"
    | (full) b where "checkWinCondition (boardState s) (currentPlayer s) u = Inr (b, s')"
    | (handoff) "s' = u\<lparr>timeouts := timeouts u @ [ChangeTurn (currentPlayer s) (gameSettings s)]\<rparr>"
    using afterAnswer_cases [OF assms] by blast
  then show ?thesis
  proof cases
    case over
    then show ?thesis by simp
  next
    case full
    then show ?thesis by (rule checkWinCondition_frame [THEN conjunct1])
  next
    case handoff
    then show ?thesis by simp
  qed
qed

lemma ANSWER_not_over: "endsWith_ANSWER g \<Longrightarrow> g \<noteq> GAME_OVER"
  by auto

lemma handleCellClick_idle:
  assumes "\<not> endsWith_ANSWER (gameState s) \<or> spinner1Value s = None \<or> spinner2Value s = None"
  shows "handleCellClick cellValue row col s = Inr s"
  using assms by (auto simp: handleCellClick_def)

lemma handleCellClick_wrong:
  assumes "endsWith_ANSWER (gameState s)"
    and "spinner1Value s = Some val1" and "spinner2Value s = Some val2"
    and "getCorrectAnswer (operation (gameSettings s)) val1 val2 \<noteq> Some cellValue"
  shows "handleCellClick cellValue row col s =
     afterAnswer False s
       (s\<lparr>flashingCell := Some (row, col),
          message := (case getCorrectAnswer (operation (gameSettings s)) val1 val2 of
                        Some x \<Rightarrow> MsgIncorrect x
                      | None \<Rightarrow> MsgNoInteger val1 (operation (gameSettings s)) val2),
          timeouts := timeouts s @ [ClearFlash]\<rparr>)"
  using assms ANSWER_not_over [OF assms(1)]
  by (auto simp: handleCellClick_def Let_def split: option.splits)

lemma handleCellClick_right:
  assumes "endsWith_ANSWER (gameState s)"
    and "spinner1Value s = Some val1" and "spinner2Value s = Some val2"
    and "getCorrectAnswer (operation (gameSettings s)) val1 val2 = Some cellValue"
  shows "handleCellClick cellValue row col s =
     (if \<not> row < length (boardState s) then Inl TypeError
      else if \<not> col < length (boardState s ! row) then Inl OutsideLayout
      else
        (case checkWinCondition
                ((boardState s)[row := (boardState s ! row)[col := Some (currentPlayer s)]])
                (currentPlayer s)
                (s\<lparr>boardState :=
                     (boardState s)[row := (boardState s ! row)[col := Some (currentPlayer s)]],
                   message := MsgCorrect val1 (operation (gameSettings s)) val2 cellValue\<rparr>) of
           Inl e \<Rightarrow> Inl e
         | Inr (isGameOver, s'') \<Rightarrow> afterAnswer isGameOver s s''))"
  using assms ANSWER_not_over [OF assms(1)]
  by (simp add: handleCellClick_def Let_def)

lemma handleCellClick_board:
  assumes "handleCellClick cellValue row col s = Inr s'"
  shows "boardState s' = boardState s
       \<or> (endsWith_ANSWER (gameState s) \<and> expectedResult s = Some cellValue
           \<and> row < length (boardState s) \<and> col < length (boardState s ! row)
           \<and> boardState s' =
               (boardState s)[row := (boardState s ! row)[col := Some (currentPlayer s)]])"
proof (cases "\<not> endsWith_ANSWER (gameState s) \<or> spinner1Value s = None \<or> spinner2Value s = None")
  case True
  then show ?thesis using assms handleCellClick_idle [OF True] by simp
next
  case False
  then obtain val1 val2 where v: "endsWith_ANSWER (gameState s)"
    "spinner1Value s = Some val1" "spinner2Value s = Some val2"
    by auto
  show ?thesis
  proof (cases "getCorrectAnswer (operation (gameSettings s)) val1 val2 = Some cellValue")
    case wrong: False
    have "boardState s' = boardState s"
      using assms afterAnswer_board unfolding handleCellClick_wrong [OF v wrong]
      by fastforce
    then show ?thesis ..
  next
    case right: True
    let ?nb = "(boardState s)[row := (boardState s ! row)[col := Some (currentPlayer s)]]"
    let ?u = "s\<lparr>boardState := ?nb,
                 message := MsgCorrect val1 (operation (gameSettings s)) val2 cellValue\<rparr>"
    note eq = handleCellClick_right [OF v right, of row col]
    have rng: "row < length (boardState s)" "col < length (boardState s ! row)"
      using assms unfolding eq by (auto split: if_splits)
    have "(case checkWinCondition ?nb (currentPlayer s) ?u of
             Inl e \<Rightarrow> Inl e | Inr (isGameOver, s'') \<Rightarrow> afterAnswer isGameOver s s'') = Inr s'"
      using assms rng unfolding eq by simp
    then obtain g u' where c: "checkWinCondition ?nb (currentPlayer s) ?u = Inr (g, u')"
      and a: "afterAnswer g s u' = Inr s'"
      by (cases "checkWinCondition ?nb (currentPlayer s) ?u") auto
    have "boardState s' = ?nb"
      using afterAnswer_board [OF a] checkWinCondition_frame [OF c] by simp
    then show ?thesis
      using v right rng by (simp add: expectedResult_def)
  qed
qed

lemma cellAt_update:
  assumes "row < length board" and "col < length (board ! row)"
  shows "cellAt (board[row := (board ! row)[col := x]]) r k =
     (if r = row \<and> k = col then x else cellAt board r k)"
  using assms by (auto simp: cellAt_def lineAt_def nth_list_update)

lemma timeoutFires_board: "boardState (timeoutFires i r s) = boardState s"
proof (cases "i < length (timeouts s)")
  case True
  then show ?thesis
    by (cases "timeouts s ! i") (simp_all add: timeoutFires_def changeTurn_fields)
next
  case False
  then show ?thesis by (simp add: timeoutFires_def)
qed

lemma handleSpin1Start_board:
  "handleSpin1Start r1 r2 s = Inr s' \<Longrightarrow> boardState s' = boardState s"
  by (auto simp: handleSpin1Start_def split: if_splits sum.splits)

lemma step_board:
  assumes "step e s = Inr s'" and "e \<noteq> Restart"
  shows "boardState s' = boardState s
       \<or> (\<exists>cellValue row col. e = CellClick cellValue row col
            \<and> endsWith_ANSWER (gameState s) \<and> expectedResult s = Some cellValue
            \<and> row < length (boardState s) \<and> col < length (boardState s ! row)
            \<and> boardState s' =
                (boardState s)[row := (boardState s ! row)[col := Some (currentPlayer s)]])"
proof (cases e)
  case (CellClick cellValue row col)
  then show ?thesis
    using assms handleCellClick_board [of cellValue row col s s'] by auto
next
  case (Spin1Start r1 r2)
  then show ?thesis using assms handleSpin1Start_board by auto
next
  case (TimeoutFires i r)
  then show ?thesis using assms timeoutFires_board by auto
next
  case (GameStart settings r)
  then show ?thesis using assms by (auto simp: handleGameStart_def prepareTurn_def Let_def)
next
  case (CoinFlipComplete result r)
  then show ?thesis
    using assms by (auto simp: handleCoinFlipComplete_def prepareTurn_def Let_def)
next
  case (Spin1End val)
  then show ?thesis using assms by (auto simp: handleSpin1End_def)
next
  case Spin2Start
  then show ?thesis using assms by (auto simp: handleSpin2Start_def)
next
  case (Spin2End val)
  then show ?thesis using assms by (auto simp: handleSpin2End_def)
next
  case DebugWin
  then show ?thesis using assms by (auto simp: debugWin_def)
next
  case Restart
  then show ?thesis using assms by simp
qed

text \<open>
  C1, as amended. No event other than a restart sets a claimed cell back to unclaimed,
  and the only event that changes who holds it is a correct answer clicked on that very
  cell in an Answer phase. Such a click is not ignored: whoever held the cell, it
  belongs to the current player afterwards.
\<close>

theorem C1_claimed_cells:
  assumes "step e s = Inr s'" and "e \<noteq> Restart"
    and "cellAt (boardState s) r k = Some p"
  shows "cellAt (boardState s') r k = Some p
       \<or> (\<exists>cellValue. e = CellClick cellValue r k
            \<and> endsWith_ANSWER (gameState s) \<and> expectedResult s = Some cellValue
            \<and> cellAt (boardState s') r k = Some (currentPlayer s))"
  using step_board [OF assms(1,2)] assms(3)
  by (auto simp: cellAt_update)

theorem C1_claimed_cells_witness:
  "CellClick 56 2 2 \<noteq> Restart
   \<and> cellAt (boardState secondAnswerState) 2 2 = Some player1
   \<and> currentPlayer secondAnswerState = player2
   \<and> (\<exists>s'. step (CellClick 56 2 2) secondAnswerState = Inr s'
         \<and> cellAt (boardState s') 2 2 = Some player2)
   \<and> (\<exists>s'. step (CellClick 30 0 0) secondAnswerState = Inr s'
         \<and> cellAt (boardState s') 2 2 = Some player1)"
proof -
  have h: "cellAt (boardState secondAnswerState) 2 2 = Some player1"
    "currentPlayer secondAnswerState = player2"
    by code_simp+
  have "map_sum id (\<lambda>x. cellAt (boardState x) 2 2) (step (CellClick 56 2 2) secondAnswerState)
      = Inr (Some player2)"
    by code_simp
  then obtain s1 where s1: "step (CellClick 56 2 2) secondAnswerState = Inr s1"
    "cellAt (boardState s1) 2 2 = Some player2"
    by (cases "step (CellClick 56 2 2) secondAnswerState") auto
  have "isl (step (CellClick 30 0 0) secondAnswerState) = False"
    by code_simp
  then obtain s2 where s2: "step (CellClick 30 0 0) secondAnswerState = Inr s2"
    by (cases "step (CellClick 30 0 0) secondAnswerState") auto
  have "cellAt (boardState s2) 2 2 = Some player1"
    using C1_claimed_cells [OF s2 _ h(1)] by auto
  then show ?thesis
    using h s1 s2 C1_claimed_cells [OF s1(1) _ h(1)] by auto
qed

text \<open>
  C1 as stated fails. In \<open>firstClaimRun\<close> player 1 answers 7 times 8 and claims the cell
  of value 56 at row 2, column 2. In \<open>secondClaimRun\<close>, which continues that run
  without a restart, player 2 draws 7 and 8 as well and clicks the same cell: the claim
  is not ignored, the cell now belongs to player 2.
\<close>

theorem C1_counterexample:
  "cellAfter production firstClaimRun 2 2 = Some (Some player1)
   \<and> cellAfter production secondClaimRun 2 2 = Some (Some player2)
   \<and> Restart \<notin> set secondClaimRun"
  by code_simp

section \<open>The end of a \<open>most_on_full\<close> game\<close>






section \<open>Rounds of a division game\<close>

lemma prepareTurn_Divide:
  assumes "operation settings = Divide"
  shows "divisionTableNumber (prepareTurn settings r0 u) = Some (int r0 + 1)"
    and "spinner1Segments (prepareTurn settings r0 u) = newSegments (int r0 + 1)"
  using assms by (simp_all add: prepareTurn_def Let_def)

lemma changeTurn_Divide:
  assumes "operation settings = Divide"
  shows "divisionTableNumber (changeTurn p settings r0 u) = Some (int r0 + 1)"
    and "spinner1Segments (changeTurn p settings r0 u) = newSegments (int r0 + 1)"
    and "gameSettings (changeTurn p settings r0 u) = gameSettings u"
    and "isSpinning1 (changeTurn p settings r0 u) = isSpinning1 u"
  using assms by (simp_all add: changeTurn_def prepareTurn_def Let_def)

lemma handleCoinFlipComplete_Divide:
  assumes "operation (gameSettings u) = Divide"
  shows "divisionTableNumber (handleCoinFlipComplete result r0 u) = Some (int r0 + 1)"
    and "spinner1Segments (handleCoinFlipComplete result r0 u) = newSegments (int r0 + 1)"
    and "gameSettings (handleCoinFlipComplete result r0 u) = gameSettings u"
    and "isSpinning1 (handleCoinFlipComplete result r0 u) = isSpinning1 u"
  using assms by (simp_all add: handleCoinFlipComplete_def prepareTurn_def Let_def)

lemma handleGameStart_Divide:
  assumes "operation settings = Divide"
  shows "divisionTableNumber (handleGameStart settings r0 u) = Some (int r0 + 1)"
    and "spinner1Segments (handleGameStart settings r0 u) = newSegments (int r0 + 1)"
    and "gameSettings (handleGameStart settings r0 u) = settings"
  using assms by (simp_all add: handleGameStart_def prepareTurn_def Let_def)

lemma chooseTargets_Divide:
  assumes "0 < t" and "r1 < 10"
  shows "chooseTargets Divide (Some t) (newSegments t) r1 r2 = Inr (t * (int r1 + 1), t)"
  using assms by (simp add: chooseTargets_def length_newSegments newSegments_nth)

lemma division_round:
  assumes op: "operation (gameSettings s) = Divide"
    and tab: "divisionTableNumber s = Some t" "spinner1Segments s = newSegments t"
    and t: "1 \<le> t" "t \<le> 10"
    and idle: "\<not> isSpinning1 s"
    and r1: "r1 < 10"
  shows "\<exists>s1. handleSpin1Start r1 r2 s = Inr s1
      \<and> spinner1Target s1 = Some (t * (int r1 + 1)) \<and> spinner2Target s1 = Some t
      \<and> divisionTableNumber s1 = Some t
      \<and> spinner1Value (handleSpin2End t (handleSpin2Start (handleSpin1End (t * (int r1 + 1)) s1)))
          = Some (t * (int r1 + 1))
      \<and> spinner2Value (handleSpin2End t (handleSpin2Start (handleSpin1End (t * (int r1 + 1)) s1)))
          = Some t
      \<and> divisionTableNumber
           (handleSpin2End t (handleSpin2Start (handleSpin1End (t * (int r1 + 1)) s1)))
          = Some t
      \<and> expectedResult
           (handleSpin2End t (handleSpin2Start (handleSpin1End (t * (int r1 + 1)) s1)))
          = Some (int r1 + 1)"
proof -
  have pos: "0 < t" using t by simp
  let ?s1 = "s\<lparr>spinner1Target := Some (t * (int r1 + 1)), spinner2Target := Some t,
                 message := MsgSpinning, isSpinning1 := True\<rparr>"
  have start: "handleSpin1Start r1 r2 s = Inr ?s1"
    using op tab idle chooseTargets_Divide [OF pos r1, of r2]
    by (simp add: handleSpin1Start_def)
  have ans: "getCorrectAnswer Divide (t * (int r1 + 1)) t = Some (int r1 + 1)"
    using getCorrectAnswer_multiple [OF pos, of "int r1 + 1"] by simp
  show ?thesis
    using start op tab ans
    by (simp add: handleSpin1End_def handleSpin2Start_def handleSpin2End_def expectedResult_def)
qed

text \<open>
  One turn of a division game, step by step: its start (\<open>changeTurn\<close>, or
  \<open>handleCoinFlipComplete\<close> for the first turn) draws the table number in 1..10,
  \<open>handleSpin1Start\<close> on the idle wheel targets a multiple of it and the table number
  itself, and once both wheels have settled on their targets the expected quotient is
  the multiplier.
\<close>

lemma division_turn:
  assumes "operation settings = Divide" and "operation (gameSettings u) = Divide"
    and "\<not> isSpinning1 u" and "r0 < 10" and "r1 < 10"
    and "s = changeTurn p settings r0 u \<or> s = handleCoinFlipComplete result r0 u"
  shows "\<exists>t m s1. t = int r0 + 1 \<and> m = int r1 + 1
      \<and> 1 \<le> t \<and> t \<le> 10 \<and> 1 \<le> m \<and> m \<le> 10
      \<and> divisionTableNumber s = Some t
      \<and> map seg_v (spinner1Segments s) = map (\<lambda>i. t * i) [1, 2, 3, 4, 5, 6, 7, 8, 9, 10]
      \<and> handleSpin1Start r1 r2 s = Inr s1
      \<and> spinner1Target s1 = Some (t * m) \<and> spinner2Target s1 = Some t
      \<and> divisionTableNumber s1 = Some t
      \<and> spinner1Value (handleSpin2End t (handleSpin2Start (handleSpin1End (t * m) s1)))
          = Some (t * m)
      \<and> spinner2Value (handleSpin2End t (handleSpin2Start (handleSpin1End (t * m) s1)))
          = Some t
      \<and> divisionTableNumber (handleSpin2End t (handleSpin2Start (handleSpin1End (t * m) s1)))
          = Some t
      \<and> js_rem (t * m) t = Some 0
      \<and> expectedResult (handleSpin2End t (handleSpin2Start (handleSpin1End (t * m) s1)))
          = Some m"
proof -
  let ?t = "int r0 + 1"
  have t: "1 \<le> ?t" "?t \<le> 10" using assms(4) by simp_all
  have prepared: "operation (gameSettings s) = Divide" "divisionTableNumber s = Some ?t"
    "spinner1Segments s = newSegments ?t" "\<not> isSpinning1 s"
    using assms(6) changeTurn_Divide [OF assms(1)]
      handleCoinFlipComplete_Divide [OF assms(2)] assms(2,3)
    by auto
  have segs: "map seg_v (newSegments ?t) = map (\<lambda>i. ?t * i) [1, 2, 3, 4, 5, 6, 7, 8, 9, 10]"
  proof -
    have "[0..<10] = [0, 1, 2, 3, 4, 5, 6, 7, 8, 9 :: nat]" by code_simp
    then show ?thesis by (simp add: newSegments_def)
  qed
  have rem: "js_rem (?t * (int r1 + 1)) ?t = Some 0"
    by (simp add: js_rem_zero_iff)
  from division_round [OF prepared(1-3) t prepared(4) assms(5), of r2]
  show ?thesis
    using t assms(5) prepared(2,3) segs rem by auto
qed

section \<open>How a game ends\<close>

lemma checkWinCondition_result:
  assumes "winCondition (gameSettings s) = first_to_5 \<or> winCondition (gameSettings s) = connect_3"
    and "currentBoard \<noteq> []"
  shows "checkWinCondition currentBoard player s =
     (if winConditionMet (winCondition (gameSettings s)) currentBoard player
      then Inr (True, s\<lparr>winner := Some player, gameState := GAME_OVER, message := MsgGameOver\<rparr>)
      else Inr (False, s))"
  using assms
  by (auto simp: checkWinCondition_def winConditionMet_def declareWinner_def Let_def)

lemma afterAnswer_no_full:
  assumes "winCondition (gameSettings s) \<noteq> most_on_full"
  shows "afterAnswer g s u =
     (if g then Inr u
      else Inr (u\<lparr>timeouts := timeouts u @ [ChangeTurn (currentPlayer s) (gameSettings s)]\<rparr>))"
  using assms by (simp add: afterAnswer_def)

lemma click_ends_or_hands_over:
  assumes w: "winCondition (gameSettings s) = first_to_5
              \<or> winCondition (gameSettings s) = connect_3"
    and ans: "endsWith_ANSWER (gameState s)"
    and v: "spinner1Value s = Some val1" "spinner2Value s = Some val2"
    and res: "handleCellClick cellValue row col s = Inr s'"
  shows "(expectedResult s = Some cellValue
           \<and> row < length (boardState s) \<and> col < length (boardState s ! row)
           \<and> boardState s' =
               (boardState s)[row := (boardState s ! row)[col := Some (currentPlayer s)]]
           \<and> winConditionMet (winCondition (gameSettings s)) (boardState s') (currentPlayer s)
           \<and> gameState s' = GAME_OVER \<and> winner s' = Some (currentPlayer s))
       \<or> (gameState s' = gameState s \<and> winner s' = winner s
           \<and> (\<exists>rest. timeouts s' = rest @ [ChangeTurn (currentPlayer s) (gameSettings s)])
           \<and> (expectedResult s = Some cellValue \<longrightarrow>
                \<not> winConditionMet (winCondition (gameSettings s)) (boardState s')
                    (currentPlayer s)))"
proof -
  have nf: "winCondition (gameSettings s) \<noteq> most_on_full" using w by auto
  have e: "expectedResult s = getCorrectAnswer (operation (gameSettings s)) val1 val2"
    using v by (simp add: expectedResult_def)
  show ?thesis
  proof (cases "getCorrectAnswer (operation (gameSettings s)) val1 val2 = Some cellValue")
    case False
    have "s' = s\<lparr>flashingCell := Some (row, col),
              message := (case getCorrectAnswer (operation (gameSettings s)) val1 val2 of
                            Some x \<Rightarrow> MsgIncorrect x
                          | None \<Rightarrow> MsgNoInteger val1 (operation (gameSettings s)) val2),
              timeouts := timeouts s @ [ClearFlash, ChangeTurn (currentPlayer s) (gameSettings s)]\<rparr>"
      using incorrect_click [OF ans v False, of row col] nf res by simp
    then have "gameState s' = gameState s \<and> winner s' = winner s
        \<and> timeouts s' = (timeouts s @ [ClearFlash]) @ [ChangeTurn (currentPlayer s) (gameSettings s)]"
      by simp
    then show ?thesis using False e by metis
  next
    case True
    let ?nb = "(boardState s)[row := (boardState s ! row)[col := Some (currentPlayer s)]]"
    let ?u = "s\<lparr>boardState := ?nb,
                 message := MsgCorrect val1 (operation (gameSettings s)) val2 cellValue\<rparr>"
    note eq = handleCellClick_right [OF ans v True, of row col]
    have rng: "row < length (boardState s)" "col < length (boardState s ! row)"
      using res unfolding eq by (auto split: if_splits)
    have ne: "?nb \<noteq> []" using rng by auto
    have wu: "winCondition (gameSettings ?u) = first_to_5
              \<or> winCondition (gameSettings ?u) = connect_3"
      using w by simp
    note cw = checkWinCondition_result [OF wu ne, of "currentPlayer s"]
    show ?thesis
    proof (cases "winConditionMet (winCondition (gameSettings s)) ?nb (currentPlayer s)")
      case met: True
      have "s' = ?u\<lparr>winner := Some (currentPlayer s), gameState := GAME_OVER,
                      message := MsgGameOver\<rparr>"
        using res rng met unfolding eq cw by (simp add: afterAnswer_no_full [OF nf])
      then have "boardState s' = ?nb \<and> gameState s' = GAME_OVER
          \<and> winner s' = Some (currentPlayer s)"
        by simp
      then show ?thesis using met True e rng by simp
    next
      case unmet: False
      have "s' = ?u\<lparr>timeouts := timeouts ?u @ [ChangeTurn (currentPlayer s) (gameSettings s)]\<rparr>"
        using res rng unmet unfolding eq cw by (simp add: afterAnswer_no_full [OF nf])
      then have "boardState s' = ?nb \<and> gameState s' = gameState s \<and> winner s' = winner s
          \<and> timeouts s' = timeouts s @ [ChangeTurn (currentPlayer s) (gameSettings s)]"
        by simp
      then show ?thesis using unmet by metis
    qed
  qed
qed

lemma timeoutFires_not_over:
  assumes "gameState s \<noteq> GAME_OVER"
  shows "gameState (timeoutFires i r s) \<noteq> GAME_OVER"
proof (cases "i < length (timeouts s)")
  case True
  show ?thesis
  proof (cases "timeouts s ! i")
    case (StartFirstTurn p n)
    then show ?thesis using True by (cases p) (simp_all add: timeoutFires_def)
  next
    case ClearFlash
    then show ?thesis using True assms by (simp add: timeoutFires_def)
  next
    case (ChangeTurn p st)
    then show ?thesis using True by (cases p) (simp_all add: timeoutFires_def changeTurn_fields)
  qed
next
  case False
  then show ?thesis using assms by (simp add: timeoutFires_def)
qed

lemma prepareTurn_gameState: "gameState (prepareTurn settings r u) = gameState u"
  by (simp add: prepareTurn_def Let_def)

lemma step_not_over:
  assumes "step e s = Inr s'" and "gameState s \<noteq> GAME_OVER"
    and "e \<noteq> DebugWin" and "\<forall>cellValue row col. e \<noteq> CellClick cellValue row col"
  shows "gameState s' \<noteq> GAME_OVER"
proof (cases e)
  case (GameStart settings r)
  then show ?thesis using assms by (auto simp: handleGameStart_def)
next
  case Restart
  then show ?thesis using assms by (auto simp: handleRestart_def)
next
  case (CoinFlipComplete result r)
  then show ?thesis
    using assms by (auto simp: handleCoinFlipComplete_def prepareTurn_gameState Let_def)
next
  case (Spin1Start r1 r2)
  then show ?thesis
    using assms by (auto simp: handleSpin1Start_def split: if_splits sum.splits)
next
  case (Spin1End val)
  then show ?thesis using assms by (cases "currentPlayer s") (auto simp: handleSpin1End_def)
next
  case Spin2Start
  then show ?thesis using assms by (auto simp: handleSpin2Start_def split: if_splits)
next
  case (Spin2End val)
  then show ?thesis using assms by (cases "currentPlayer s") (auto simp: handleSpin2End_def)
next
  case (TimeoutFires i r)
  then show ?thesis using assms timeoutFires_not_over by auto
next
  case (CellClick cellValue row col)
  then show ?thesis using assms by simp
next
  case DebugWin
  then show ?thesis using assms by simp
qed

text \<open>
  C10. Under \<open>first_to_5\<close> and \<open>connect_3\<close>, whatever event reaches the application
  (the \<open>Debug Win\<close> button that only a development build renders set aside), it enters
  \<open>GAME_OVER\<close> only through a correct answer clicked in an Answer phase whose claim
  makes the board meet the win condition for the current player, who is then the
  winner. Every other answer, whatever the board holds, full or not, leaves the phase
  and the winner as they are and schedules the hand-off, which gives the other
  player's \<open>SPIN_1\<close>; no answer ends the game without a winner.
\<close>

theorem C10_game_over_only_by_win:
  assumes "winCondition (gameSettings s) = first_to_5
           \<or> winCondition (gameSettings s) = connect_3"
    and "step e s = Inr s'" and "e \<noteq> DebugWin" and "gameState s \<noteq> GAME_OVER"
  shows "(gameState s' = GAME_OVER \<longrightarrow>
            (\<exists>cellValue row col. e = CellClick cellValue row col
               \<and> endsWith_ANSWER (gameState s) \<and> expectedResult s = Some cellValue
               \<and> boardState s' =
                   (boardState s)[row := (boardState s ! row)[col := Some (currentPlayer s)]]
               \<and> winConditionMet (winCondition (gameSettings s)) (boardState s')
                    (currentPlayer s)
               \<and> winner s' = Some (currentPlayer s)))
       \<and> (\<forall>cellValue row col.
            e = CellClick cellValue row col \<and> endsWith_ANSWER (gameState s)
            \<and> spinner1Value s \<noteq> None \<and> spinner2Value s \<noteq> None
            \<and> gameState s' \<noteq> GAME_OVER \<longrightarrow>
              gameState s' = gameState s \<and> winner s' = winner s
              \<and> (\<exists>rest. timeouts s' = rest @ [ChangeTurn (currentPlayer s) (gameSettings s)])
              \<and> (\<forall>u r. gameState (runTimeout (ChangeTurn (currentPlayer s) (gameSettings s)) r u)
                         = SPIN_1_of (if currentPlayer s = player1 then player2 else player1)))"
proof (rule conjI)
  show "gameState s' = GAME_OVER \<longrightarrow>
            (\<exists>cellValue row col. e = CellClick cellValue row col
               \<and> endsWith_ANSWER (gameState s) \<and> expectedResult s = Some cellValue
               \<and> boardState s' =
                   (boardState s)[row := (boardState s ! row)[col := Some (currentPlayer s)]]
               \<and> winConditionMet (winCondition (gameSettings s)) (boardState s')
                    (currentPlayer s)
               \<and> winner s' = Some (currentPlayer s))"
  proof
    assume over: "gameState s' = GAME_OVER"
    then obtain cellValue row col where e: "e = CellClick cellValue row col"
      using step_not_over [OF assms(2,4,3)] by blast
    then have res: "handleCellClick cellValue row col s = Inr s'"
      using assms(2) by simp
    have busy: "endsWith_ANSWER (gameState s) \<and> spinner1Value s \<noteq> None
                \<and> spinner2Value s \<noteq> None"
    proof (rule ccontr)
      assume "\<not> (endsWith_ANSWER (gameState s) \<and> spinner1Value s \<noteq> None
                  \<and> spinner2Value s \<noteq> None)"
      then have idle: "\<not> endsWith_ANSWER (gameState s) \<or> spinner1Value s = None
                       \<or> spinner2Value s = None"
        by blast
      have "s' = s" using handleCellClick_idle [OF idle, of cellValue row col] res by simp
      then show False using over assms(4) by simp
    qed
    then obtain val1 val2 where v: "spinner1Value s = Some val1" "spinner2Value s = Some val2"
      by auto
    have ans: "endsWith_ANSWER (gameState s)" using busy by simp
    from click_ends_or_hands_over [OF assms(1) ans v res] over assms(4) e ans
    show "\<exists>cellValue row col. e = CellClick cellValue row col
               \<and> endsWith_ANSWER (gameState s) \<and> expectedResult s = Some cellValue
               \<and> boardState s' =
                   (boardState s)[row := (boardState s ! row)[col := Some (currentPlayer s)]]
               \<and> winConditionMet (winCondition (gameSettings s)) (boardState s')
                    (currentPlayer s)
               \<and> winner s' = Some (currentPlayer s)"
      by auto
  qed
next
  show "\<forall>cellValue row col.
            e = CellClick cellValue row col \<and> endsWith_ANSWER (gameState s)
            \<and> spinner1Value s \<noteq> None \<and> spinner2Value s \<noteq> None
            \<and> gameState s' \<noteq> GAME_OVER \<longrightarrow>
              gameState s' = gameState s \<and> winner s' = winner s
              \<and> (\<exists>rest. timeouts s' = rest @ [ChangeTurn (currentPlayer s) (gameSettings s)])
              \<and> (\<forall>u r. gameState (runTimeout (ChangeTurn (currentPlayer s) (gameSettings s)) r u)
                         = SPIN_1_of (if currentPlayer s = player1 then player2 else player1))"
  proof (intro allI impI)
    fix cellValue row col
    assume a: "e = CellClick cellValue row col \<and> endsWith_ANSWER (gameState s)
              \<and> spinner1Value s \<noteq> None \<and> spinner2Value s \<noteq> None
              \<and> gameState s' \<noteq> GAME_OVER"
    then have res: "handleCellClick cellValue row col s = Inr s'"
      using assms(2) by simp
    from a obtain val1 val2 where v: "spinner1Value s = Some val1" "spinner2Value s = Some val2"
      by auto
    have ans: "endsWith_ANSWER (gameState s)" using a by simp
    from click_ends_or_hands_over [OF assms(1) ans v res] a
    show "gameState s' = gameState s \<and> winner s' = winner s
        \<and> (\<exists>rest. timeouts s' = rest @ [ChangeTurn (currentPlayer s) (gameSettings s)])
        \<and> (\<forall>u r. gameState (runTimeout (ChangeTurn (currentPlayer s) (gameSettings s)) r u)
                   = SPIN_1_of (if currentPlayer s = player1 then player2 else player1))"
      by (auto simp: changeTurn_fields)
  qed
qed

theorem C10_game_over_only_by_win_witness:
  "winCondition (gameSettings almostWonState) = first_to_5
   \<and> CellClick 56 2 2 \<noteq> DebugWin \<and> CellClick 30 1 1 \<noteq> DebugWin
   \<and> gameState almostWonState \<noteq> GAME_OVER
   \<and> endsWith_ANSWER (gameState almostWonState)
   \<and> spinner1Value almostWonState \<noteq> None \<and> spinner2Value almostWonState \<noteq> None
   \<and> (\<exists>s'. step (CellClick 56 2 2) almostWonState = Inr s' \<and> gameState s' = GAME_OVER
         \<and> winner s' = Some player1 \<and> countCells (boardState s') player1 = 5)
   \<and> (\<exists>s'. step (CellClick 30 1 1) almostWonState = Inr s' \<and> gameState s' \<noteq> GAME_OVER
         \<and> gameState s' = PLAYER_1_ANSWER
         \<and> (\<exists>rest. timeouts s' = rest @ [ChangeTurn player1 (gameSettings almostWonState)]))"
proof -
  have h: "winCondition (gameSettings almostWonState) = first_to_5"
    "gameState almostWonState \<noteq> GAME_OVER" "endsWith_ANSWER (gameState almostWonState)"
    "spinner1Value almostWonState \<noteq> None" "spinner2Value almostWonState \<noteq> None"
    "currentPlayer almostWonState = player1" "gameState almostWonState = PLAYER_1_ANSWER"
    by (simp_all add: almostWonState_def answerState_fields)
  have w: "winCondition (gameSettings almostWonState) = first_to_5
           \<or> winCondition (gameSettings almostWonState) = connect_3"
    using h(1) by simp
  have "map_sum id (\<lambda>x. (gameState x, countCells (boardState x) player1))
          (step (CellClick 56 2 2) almostWonState) = Inr (GAME_OVER, 5)"
    by code_simp
  then obtain s1 where s1: "step (CellClick 56 2 2) almostWonState = Inr s1"
    "gameState s1 = GAME_OVER" "countCells (boardState s1) player1 = 5"
    by (cases "step (CellClick 56 2 2) almostWonState") auto
  have "map_sum id gameState (step (CellClick 30 1 1) almostWonState) = Inr PLAYER_1_ANSWER"
    by code_simp
  then obtain s2 where s2: "step (CellClick 30 1 1) almostWonState = Inr s2"
    "gameState s2 = PLAYER_1_ANSWER"
    by (cases "step (CellClick 30 1 1) almostWonState") auto
  have n2: "gameState s2 \<noteq> GAME_OVER" using s2(2) by simp
  show ?thesis
    using h s1 s2 n2
      C10_game_over_only_by_win [OF w s1(1) _ h(2)]
      C10_game_over_only_by_win [OF w s2(1) _ h(2)]
    by auto
qed

text \<open>
  The event set aside above: in a development build, with the default settings
  (\<open>first_to_5\<close>), the \<open>Debug Win\<close> button ends a game in which no cell was claimed.
\<close>

lemma debugWin_ends_game:
  "map_option gameState (stateAfter development (openingRun first_to_5 @ [DebugWin]))
     = Some GAME_OVER
   \<and> map_option boardState (stateAfter development (openingRun first_to_5 @ [DebugWin]))
     = Some initialBoardState
   \<and> map_option gameState (stateAfter development (openingRun first_to_5))
     = Some PLAYER_1_SPIN_1"
  by code_simp

section \<open>Division rounds through a whole game\<close>

lemma multipleOf_simps [simp]:
  "multipleOf t None"
  "r1 < 10 \<Longrightarrow> multipleOf t (Some (t * (int r1 + 1)))"
proof -
  show "multipleOf t None" by (simp add: multipleOf_def)
  assume "r1 < 10"
  then have "seg_v (newSegments t ! r1) \<in> set (map seg_v (newSegments t))"
    by (simp add: length_newSegments)
  then show "multipleOf t (Some (t * (int r1 + 1)))"
    using \<open>r1 < 10\<close> by (simp add: multipleOf_def multiples_def newSegments_nth)
qed


lemma tableOr_simps [simp]: "tableOr t None" "tableOr t (Some b) \<longleftrightarrow> b = t"
  by (simp_all add: tableOr_def)

lemma noRound_roundReady:
  "noRound s \<Longrightarrow> 1 \<le> t \<Longrightarrow> t \<le> 10 \<Longrightarrow> divisionTableNumber s = Some t
   \<Longrightarrow> spinner1Segments s = newSegments t \<Longrightarrow> roundReady t s"
  by (simp add: noRound_def roundReady_def)


lemma sameRound_noRound: "sameRound s s' \<Longrightarrow> noRound s \<Longrightarrow> noRound s'"
  by (simp add: sameRound_def noRound_def)

lemma sameRound_refl [simp]: "sameRound s s"
  by (simp add: sameRound_def)







lemma prepareTurn_other [simp]:
  "gameState (prepareTurn settings r u) = gameState u"
  "timeouts (prepareTurn settings r u) = timeouts u"
  "gameSettings (prepareTurn settings r u) = gameSettings u"
  "noRound (prepareTurn settings r u) = noRound u"
  by (simp_all add: prepareTurn_def noRound_def Let_def)





















end
